theory Spec2Isabelle
  imports Main "HOL-Library.Word" "HOL-Library.Signed_Division"
begin

unbundle bit_operations_syntax

section \<open>Object tiles of OpenTTD: a shallow embedding of \<^verbatim>\<open>object_cmd.cpp\<close>\<close>

text \<open>
  The theory embeds the functions of \<^verbatim>\<open>src/object_cmd.cpp\<close> that create, grow and remove
  objects (\<^verbatim>\<open>BuildObject\<close>, \<^verbatim>\<open>IncreaseAnimationStage\<close>, \<^verbatim>\<open>UpdateCompanyHQ\<close>,
  \<^verbatim>\<open>CmdBuildObject\<close>, \<^verbatim>\<open>ClearTile_Object\<close>, \<^verbatim>\<open>IsRadioTowerNearby\<close>,
  \<^verbatim>\<open>GenerateObjects\<close>) as functions on an explicit world state.

  Conventions.
  \<^item> The global state of the game (map array, object pool, per-type counts, company and
    town pools, \<^verbatim>\<open>_current_company\<close>, \<^verbatim>\<open>_game_mode\<close>, cheats, date, settings, the
    position in the random stream) is the record \<open>World\<close>; every function takes it and
    returns the new one.
  \<^item> A function returns \<open>None\<close> when the C++ aborts or does not return: a failed
    \<^verbatim>\<open>assert\<close>, the dereference of an empty pool slot, a division by zero, a loop that
    never ends.
  \<^item> A command returns a \<open>CommandCost\<close> (success with a cost, or failure with a
    message) next to the world.
  \<^item> Functions of the game that live in other files and whose behaviour is not fixed by
    this file (the terrain checks, the company valuation, the object specification table,
    the random source, the map scaling helpers) are the fields of the record
    \<open>Externals\<close>. The small accessors of the map array and of the pools are modelled
    directly; each such definition says so.
  \<^item> Tile indices are natural numbers; the 32-bit wrap-around of \<^verbatim>\<open>TileIndex\<close> is not
    modelled (a map has at most \<open>2 ^ 22\<close> tiles). Bytes and 16/32-bit counters whose
    wrap-around is observable are words.
  \<^item> Redrawing and window invalidation (\<^verbatim>\<open>MarkTileDirtyByTile\<close>, \<^verbatim>\<open>SetWindowDirty\<close>)
    and the progress bar of world generation have no effect on the modelled state and are
    left out.
\<close>

subsection \<open>Basic types\<close>

type_synonym TileIndex = nat
type_synonym Owner = nat
type_synonym ObjectID = nat
type_synonym ObjectType = nat
type_synonym TownID = nat
type_synonym Money = int
type_synonym Slope = nat

text \<open>\<^verbatim>\<open>INVALID_TILE\<close> is \<^verbatim>\<open>(TileIndex)-1\<close>.\<close>

definition INVALID_TILE :: TileIndex where
  "INVALID_TILE = 2 ^ 32 - 1"

definition MAX_COMPANIES :: Owner where
  "MAX_COMPANIES = 15"

definition OWNER_NONE :: Owner where
  "OWNER_NONE = 16"

definition OWNER_WATER :: Owner where
  "OWNER_WATER = 17"

definition OBJECT_TRANSMITTER :: ObjectType where
  "OBJECT_TRANSMITTER = 0"

definition OBJECT_LIGHTHOUSE :: ObjectType where
  "OBJECT_LIGHTHOUSE = 1"

definition OBJECT_STATUE :: ObjectType where
  "OBJECT_STATUE = 2"

definition OBJECT_OWNED_LAND :: ObjectType where
  "OBJECT_OWNED_LAND = 3"

definition OBJECT_HQ :: ObjectType where
  "OBJECT_HQ = 4"

definition SLOPE_FLAT :: Slope where
  "SLOPE_FLAT = 0"

definition TILE_HEIGHT :: nat where
  "TILE_HEIGHT = 8"

datatype TileType =
  MP_CLEAR | MP_RAILWAY | MP_ROAD | MP_HOUSE | MP_TREES | MP_STATION
  | MP_WATER | MP_VOID | MP_INDUSTRY | MP_TUNNELBRIDGE | MP_OBJECT

datatype WaterClass =
  WATER_CLASS_SEA | WATER_CLASS_CANAL | WATER_CLASS_RIVER | WATER_CLASS_INVALID

datatype WaterTileType =
  WATER_TILE_CLEAR | WATER_TILE_COAST | WATER_TILE_LOCK | WATER_TILE_DEPOT

datatype GameMode = GM_MENU | GM_NORMAL | GM_EDITOR

datatype LandscapeType = LT_TEMPERATE | LT_ARCTIC | LT_TROPIC | LT_TOYLAND

datatype ExpensesType = EXPENSES_CONSTRUCTION | EXPENSES_PROPERTY | INVALID_EXPENSES

datatype StringID =
  INVALID_STRING_ID
  | STR_ERROR_TOO_MANY_OBJECTS
  | STR_ERROR_MUST_FOUND_TOWN_FIRST
  | STR_ERROR_FLAT_LAND_REQUIRED
  | STR_ERROR_YOU_ALREADY_OWN_IT
  | STR_ERROR_COMPANY_HEADQUARTERS_IN
  | STR_ERROR_OBJECT_IN_THE_WAY
  | STR_ERROR_OWNED_BY
  | STR_OTHER nat

datatype DoCommandFlag = DC_EXEC | DC_AUTO | DC_OTHER nat

datatype ObjectFlags =
  OBJECT_FLAG_ONLY_IN_SCENEDIT
  | OBJECT_FLAG_ONLY_IN_GAME
  | OBJECT_FLAG_AUTOREMOVE
  | OBJECT_FLAG_CLEAR_INCOME
  | OBJECT_FLAG_HAS_NO_FOUNDATION
  | OBJECT_FLAG_ALLOW_UNDER_BRIDGE

datatype Axis = AXIS_X | AXIS_Y

text \<open>\<^verbatim>\<open>DiagDirection\<close> is an enumeration that \<^verbatim>\<open>GenerateObjects\<close> increments.\<close>

type_synonym DiagDirection = nat

definition DIAGDIR_NE :: DiagDirection where
  "DIAGDIR_NE = 0"

definition DIAGDIR_SE :: DiagDirection where
  "DIAGDIR_SE = 1"

definition DIAGDIR_SW :: DiagDirection where
  "DIAGDIR_SW = 2"

definition DIAGDIR_NW :: DiagDirection where
  "DIAGDIR_NW = 3"

record TileArea =
  ta_tile :: TileIndex
  ta_w :: nat
  ta_h :: nat

text \<open>
  One cell of the map array. The fields used by object tiles: the tile type, the owner,
  the water class, the object index (\<^verbatim>\<open>m2\<close>), the random bits (\<^verbatim>\<open>m3\<close>), the object type
  (\<^verbatim>\<open>m5\<close>) and the animation frame (\<^verbatim>\<open>m7\<close>). Slope, height and the bridge flag are
  what \<^verbatim>\<open>GetTileSlope\<close> and \<^verbatim>\<open>IsBridgeAbove\<close> report for the cell.
\<close>

record Tile =
  tile_type :: TileType
  tile_owner :: Owner
  water_class :: WaterClass
  water_tile_type :: WaterTileType
  m2_index :: ObjectID
  m3_random :: "8 word"
  m5_object_type :: ObjectType
  m7_frame :: "8 word"
  tile_slope :: Slope
  tile_z :: nat
  bridge_above :: bool

record Object =
  location :: TileArea
  o_town :: TownID
  build_date :: int

record Company =
  location_of_HQ :: TileIndex

record Town =
  statues :: "16 word"

record ObjectSpec =
  spec_size :: nat
  spec_flags :: "ObjectFlags set"
  spec_enabled :: bool
  spec_build_cost :: Money
  spec_clear_cost :: Money

record CommandCost =
  cc_expense_type :: ExpensesType
  cc_cost :: Money
  cc_message :: StringID
  cc_success :: bool

record World =
  tiles :: "TileIndex \<Rightarrow> Tile"
  MapSizeX :: nat
  MapSizeY :: nat
  object_pool :: "Object option list"
  counts :: "ObjectType \<Rightarrow> 16 word"
  companies :: "Company option list"
  towns :: "Town option list"
  current_company :: Owner
  game_mode :: GameMode
  magic_bulldozer :: bool
  cur_date :: int
  landscape :: LandscapeType
  freeform_edges :: bool
  random_calls :: nat
  invalidated_hq_cargo :: "nat list"

text \<open>
  The rest of the game, as far as this file calls it.
  \<^item> \<open>ObjectSpec_Get\<close>: the specification table behind \<^verbatim>\<open>ObjectSpec::Get\<close>.
  \<^item> \<open>Object_pool_max_size\<close>: the size limit of the object pool.
  \<^item> \<open>CheckFlatLand\<close> and \<open>DoCommand_LANDSCAPE_CLEAR\<close>: the two terrain checks of
    \<^verbatim>\<open>CmdBuildObject\<close>. They receive the command flags and return a cost or an error;
    with \<^verbatim>\<open>DC_EXEC\<close> they may change the world (they clear the land).
  \<^item> \<open>CalcClosestTownFromTile\<close>: \<open>None\<close> is the null pointer.
  \<^item> \<open>UpdateCompanyRatingAndValue\<close> (called with \<^verbatim>\<open>update = false\<close>) and
    \<open>CalculateCompanyValue\<close>, for the company in the given pool slot.
  \<^item> \<open>Random_values\<close>: the values that successive calls of \<^verbatim>\<open>Random()\<close> return.
  \<^item> \<open>ScaleByMapSize\<close> and \<open>ScaleByMapSize1D\<close>.
\<close>

record Externals =
  ObjectSpec_Get :: "ObjectType \<Rightarrow> ObjectSpec"
  Object_pool_max_size :: nat
  CheckFlatLand :: "World \<Rightarrow> TileArea \<Rightarrow> DoCommandFlag set \<Rightarrow> CommandCost \<times> World"
  DoCommand_LANDSCAPE_CLEAR :: "World \<Rightarrow> TileIndex \<Rightarrow> DoCommandFlag set \<Rightarrow> CommandCost \<times> World"
  CalcClosestTownFromTile :: "World \<Rightarrow> TileIndex \<Rightarrow> TownID option"
  UpdateCompanyRatingAndValue :: "World \<Rightarrow> nat \<Rightarrow> int"
  CalculateCompanyValue :: "World \<Rightarrow> nat \<Rightarrow> Money"
  Random_values :: "nat \<Rightarrow> 32 word"
  ScaleByMapSize :: "nat \<Rightarrow> nat"
  ScaleByMapSize1D :: "32 word \<Rightarrow> 32 word"

subsection \<open>Bit fields, command costs, pools\<close>

text \<open>\<^verbatim>\<open>GB(x, s, n)\<close>: the \<open>n\<close> bits of \<open>x\<close> from bit \<open>s\<close>.\<close>

definition GB :: "nat \<Rightarrow> nat \<Rightarrow> nat \<Rightarrow> nat" where
  "GB x s n = (x div 2 ^ s) mod 2 ^ n"

text \<open>
  Modelled from the spec: the class \<^verbatim>\<open>CommandCost\<close> (\<^verbatim>\<open>command_type.h\<close>), the tagged
  result "success with a cost or failure with a reason". Money is an unbounded integer
  here.
\<close>

definition CommandCost_init :: "ExpensesType \<Rightarrow> CommandCost" where
  "CommandCost_init ex_t =
     \<lparr>cc_expense_type = ex_t, cc_cost = 0, cc_message = INVALID_STRING_ID, cc_success = True\<rparr>"

definition CommandCost_of :: "ExpensesType \<Rightarrow> Money \<Rightarrow> CommandCost" where
  "CommandCost_of ex_t cst =
     \<lparr>cc_expense_type = ex_t, cc_cost = cst, cc_message = INVALID_STRING_ID, cc_success = True\<rparr>"

definition return_cmd_error :: "StringID \<Rightarrow> CommandCost" where
  "return_cmd_error msg =
     \<lparr>cc_expense_type = INVALID_EXPENSES, cc_cost = 0, cc_message = msg, cc_success = False\<rparr>"

definition CMD_ERROR :: CommandCost where
  "CMD_ERROR = return_cmd_error INVALID_STRING_ID"

definition AddCost :: "CommandCost \<Rightarrow> CommandCost \<Rightarrow> CommandCost" where
  "AddCost this ret =
     (let this1 = this\<lparr>cc_cost := cc_cost this + cc_cost ret\<rparr>
      in if cc_success this1 \<and> \<not> cc_success ret
         then this1\<lparr>cc_message := cc_message ret, cc_success := False\<rparr>
         else this1)"

definition AddCostMoney :: "CommandCost \<Rightarrow> Money \<Rightarrow> CommandCost" where
  "AddCostMoney this m = this\<lparr>cc_cost := cc_cost this + m\<rparr>"

definition MultiplyCost :: "CommandCost \<Rightarrow> int \<Rightarrow> CommandCost" where
  "MultiplyCost this f = this\<lparr>cc_cost := cc_cost this * f\<rparr>"

definition Succeeded :: "CommandCost \<Rightarrow> bool" where
  "Succeeded c = cc_success c"

definition Failed :: "CommandCost \<Rightarrow> bool" where
  "Failed c = (\<not> cc_success c)"

text \<open>
  Modelled from the spec: the pool template (\<^verbatim>\<open>core/pool_type.hpp\<close>), "a densely packed
  pool of records with stable identifiers". A pool is the array of its slots; an item's
  index is its slot. \<open>pool_get\<close> is \<^verbatim>\<open>Get\<close> (\<open>None\<close> for an empty slot), \<open>pool_new\<close>
  puts an item into the first free slot, \<open>pool_delete\<close> frees a slot.
\<close>

definition pool_get :: "'a option list \<Rightarrow> nat \<Rightarrow> 'a option" where
  "pool_get p i = (if i < length p then p ! i else None)"

fun pool_items :: "'a option list \<Rightarrow> nat" where
  "pool_items [] = 0"
| "pool_items (None # p) = pool_items p"
| "pool_items (Some x # p) = Suc (pool_items p)"

fun FindFirstFree :: "'a option list \<Rightarrow> nat" where
  "FindFirstFree [] = 0"
| "FindFirstFree (None # p) = 0"
| "FindFirstFree (Some x # p) = Suc (FindFirstFree p)"

definition pool_put :: "'a option list \<Rightarrow> nat \<Rightarrow> 'a \<Rightarrow> 'a option list" where
  "pool_put p i x = (if i < length p then p[i := Some x] else p @ [Some x])"

definition pool_delete :: "'a option list \<Rightarrow> nat \<Rightarrow> 'a option list" where
  "pool_delete p i = p[i := None]"

definition CanAllocateItem :: "Externals \<Rightarrow> World \<Rightarrow> bool" where
  "CanAllocateItem ext s = (pool_items (object_pool s) < Object_pool_max_size ext)"

definition Town_GetNumItems :: "World \<Rightarrow> nat" where
  "Town_GetNumItems s = pool_items (towns s)"

subsection \<open>Map accessors\<close>

text \<open>
  Modelled from the spec: the accessors of the map (\<^verbatim>\<open>map_func.h\<close>, \<^verbatim>\<open>tile_map.h\<close>,
  \<^verbatim>\<open>object_map.h\<close>, \<^verbatim>\<open>water_map.h\<close>), the "Grid Addressing" and "Occupancy cell record"
  of the spec: coordinates and linear indices, and the per-cell type tag, owner, owning
  object's identifier, auxiliary byte and water class.
\<close>

definition MapMaxX :: "World \<Rightarrow> nat" where
  "MapMaxX s = MapSizeX s - 1"

definition MapMaxY :: "World \<Rightarrow> nat" where
  "MapMaxY s = MapSizeY s - 1"

definition MapSize :: "World \<Rightarrow> nat" where
  "MapSize s = MapSizeX s * MapSizeY s"

definition TileX :: "World \<Rightarrow> TileIndex \<Rightarrow> nat" where
  "TileX s t = t mod MapSizeX s"

definition TileY :: "World \<Rightarrow> TileIndex \<Rightarrow> nat" where
  "TileY s t = t div MapSizeX s"

definition TileXY :: "World \<Rightarrow> nat \<Rightarrow> nat \<Rightarrow> TileIndex" where
  "TileXY s x y = y * MapSizeX s + x"

definition TileDiffXY :: "World \<Rightarrow> nat \<Rightarrow> nat \<Rightarrow> nat" where
  "TileDiffXY s x y = y * MapSizeX s + x"

text \<open>
  The cells that \<^verbatim>\<open>TILE_LOOP(var, w, h, tile)\<close> (and \<^verbatim>\<open>TILE_AREA_LOOP\<close>) visits, in its
  order: row by row, \<open>w\<close> cells in each of \<open>h\<close> rows.
\<close>

definition TILE_LOOP :: "World \<Rightarrow> nat \<Rightarrow> nat \<Rightarrow> TileIndex \<Rightarrow> TileIndex list" where
  "TILE_LOOP s w h t =
     concat (map (\<lambda>y. map (\<lambda>x. t + TileDiffXY s x y) [0..<w]) [0..<h])"

definition TILE_AREA_LOOP :: "World \<Rightarrow> TileArea \<Rightarrow> TileIndex list" where
  "TILE_AREA_LOOP s ta = TILE_LOOP s (ta_w ta) (ta_h ta) (ta_tile ta)"

definition IsTileType :: "World \<Rightarrow> TileIndex \<Rightarrow> TileType \<Rightarrow> bool" where
  "IsTileType s t ty = (tile_type (tiles s t) = ty)"

definition GetTileOwner :: "World \<Rightarrow> TileIndex \<Rightarrow> Owner" where
  "GetTileOwner s t = tile_owner (tiles s t)"

definition IsTileOwner :: "World \<Rightarrow> TileIndex \<Rightarrow> Owner \<Rightarrow> bool" where
  "IsTileOwner s t ow = (GetTileOwner s t = ow)"

definition GetTileSlope :: "World \<Rightarrow> TileIndex \<Rightarrow> Slope \<times> nat" where
  "GetTileSlope s t = (tile_slope (tiles s t), tile_z (tiles s t))"

definition IsBridgeAbove :: "World \<Rightarrow> TileIndex \<Rightarrow> bool" where
  "IsBridgeAbove s t = bridge_above (tiles s t)"

definition IsWaterTile :: "World \<Rightarrow> TileIndex \<Rightarrow> bool" where
  "IsWaterTile s t =
     (IsTileType s t MP_WATER \<and> water_tile_type (tiles s t) = WATER_TILE_CLEAR)"

definition GetWaterClass :: "World \<Rightarrow> TileIndex \<Rightarrow> WaterClass" where
  "GetWaterClass s t = water_class (tiles s t)"

text \<open>\<^verbatim>\<open>GetObjectType\<close> and \<^verbatim>\<open>GetObjectIndex\<close> assert that the tile is an object tile.\<close>

definition GetObjectType :: "World \<Rightarrow> TileIndex \<Rightarrow> ObjectType option" where
  "GetObjectType s t =
     (if IsTileType s t MP_OBJECT then Some (m5_object_type (tiles s t)) else None)"

definition GetObjectIndex :: "World \<Rightarrow> TileIndex \<Rightarrow> ObjectID option" where
  "GetObjectIndex s t =
     (if IsTileType s t MP_OBJECT then Some (m2_index (tiles s t)) else None)"

definition IsOwnedLand :: "World \<Rightarrow> TileIndex \<Rightarrow> bool" where
  "IsOwnedLand s t = (m5_object_type (tiles s t) = OBJECT_OWNED_LAND)"

definition IsTransmitterTile :: "World \<Rightarrow> TileIndex \<Rightarrow> bool" where
  "IsTransmitterTile s t =
     (IsTileType s t MP_OBJECT \<and> m5_object_type (tiles s t) = OBJECT_TRANSMITTER)"

definition GetAnimationFrame :: "World \<Rightarrow> TileIndex \<Rightarrow> 8 word" where
  "GetAnimationFrame s t = m7_frame (tiles s t)"

definition SetAnimationFrame :: "World \<Rightarrow> TileIndex \<Rightarrow> 8 word \<Rightarrow> World" where
  "SetAnimationFrame s t frame =
     s\<lparr>tiles := (tiles s)(t := (tiles s t)\<lparr>m7_frame := frame\<rparr>)\<rparr>"

definition MakeObject ::
  "World \<Rightarrow> TileIndex \<Rightarrow> ObjectType \<Rightarrow> Owner \<Rightarrow> ObjectID \<Rightarrow> WaterClass \<Rightarrow> 8 word \<Rightarrow> World" where
  "MakeObject s t u ow index wc random =
     s\<lparr>tiles := (tiles s)(t := (tiles s t)
        \<lparr>tile_type := MP_OBJECT, tile_owner := ow, water_class := wc,
         m2_index := index, m3_random := random, m5_object_type := u, m7_frame := 0\<rparr>)\<rparr>"

text \<open>
  Modelled from the spec: \<^verbatim>\<open>MakeWaterKeepingClass\<close> (\<^verbatim>\<open>water_cmd.cpp\<close>), which "reverts
  the cell to terrain, restoring water where the stored water class indicates": sea,
  canal (kept by the given owner) or river for the three water classes, bare land owned
  by nobody otherwise.
\<close>

definition MakeWater :: "World \<Rightarrow> TileIndex \<Rightarrow> Owner \<Rightarrow> WaterClass \<Rightarrow> World" where
  "MakeWater s t ow wc =
     s\<lparr>tiles := (tiles s)(t := (tiles s t)
        \<lparr>tile_type := MP_WATER, tile_owner := ow, water_class := wc,
         water_tile_type := WATER_TILE_CLEAR, m2_index := 0, m5_object_type := 0,
         m7_frame := 0\<rparr>)\<rparr>"

definition DoClearSquare :: "World \<Rightarrow> TileIndex \<Rightarrow> World" where
  "DoClearSquare s t =
     s\<lparr>tiles := (tiles s)(t := (tiles s t)
        \<lparr>tile_type := MP_CLEAR, tile_owner := OWNER_NONE, water_class := WATER_CLASS_INVALID,
         m2_index := 0, m5_object_type := 0, m7_frame := 0\<rparr>)\<rparr>"

definition MakeWaterKeepingClass :: "World \<Rightarrow> TileIndex \<Rightarrow> Owner \<Rightarrow> World" where
  "MakeWaterKeepingClass s t ow =
     (case GetWaterClass s t of
        WATER_CLASS_SEA \<Rightarrow> MakeWater s t OWNER_WATER WATER_CLASS_SEA
      | WATER_CLASS_CANAL \<Rightarrow> MakeWater s t ow WATER_CLASS_CANAL
      | WATER_CLASS_RIVER \<Rightarrow> MakeWater s t OWNER_WATER WATER_CLASS_RIVER
      | WATER_CLASS_INVALID \<Rightarrow> DoClearSquare s t)"

text \<open>\<^verbatim>\<open>Random()\<close>: the next value of the random stream.\<close>

definition Random :: "Externals \<Rightarrow> World \<Rightarrow> 32 word \<times> World" where
  "Random ext s = (Random_values ext (random_calls s), s\<lparr>random_calls := random_calls s + 1\<rparr>)"

subsection \<open>The object pool and the per-type counts\<close>

text \<open>\<^verbatim>\<open>Object::GetByTile\<close>: the object whose index the tile stores.\<close>

definition Object_GetByTile :: "World \<Rightarrow> TileIndex \<Rightarrow> Object option" where
  "Object_GetByTile s t =
     (case GetObjectIndex s t of
        None \<Rightarrow> None
      | Some i \<Rightarrow> pool_get (object_pool s) i)"

definition IncTypeCount :: "World \<Rightarrow> ObjectType \<Rightarrow> World" where
  "IncTypeCount s type = s\<lparr>counts := (counts s)(type := counts s type + 1)\<rparr>"

definition DecTypeCount :: "World \<Rightarrow> ObjectType \<Rightarrow> World" where
  "DecTypeCount s type = s\<lparr>counts := (counts s)(type := counts s type - 1)\<rparr>"

subsection \<open>\<^verbatim>\<open>BuildObject\<close>\<close>

text \<open>The body of the loop of \<^verbatim>\<open>BuildObject\<close> over the tiles of the area.\<close>

definition BuildObject_tile ::
  "Externals \<Rightarrow> ObjectType \<Rightarrow> Owner \<Rightarrow> ObjectID \<Rightarrow> TileIndex \<Rightarrow> World \<Rightarrow> World" where
  "BuildObject_tile ext type ow index t s =
     (let wc = (if IsWaterTile s t then GetWaterClass s t else WATER_CLASS_INVALID);
          (r, s1) = Random ext s
      in MakeObject s1 t type ow index wc (ucast r))"

text \<open>
  \<^verbatim>\<open>BuildObject(type, tile, owner, town)\<close>. \<^verbatim>\<open>new Object()\<close> aborts when the pool is full;
  the \<^verbatim>\<open>assert\<close> aborts when no town is found.
\<close>

definition BuildObject ::
  "Externals \<Rightarrow> World \<Rightarrow> ObjectType \<Rightarrow> TileIndex \<Rightarrow> Owner \<Rightarrow> TownID option \<Rightarrow> World option" where
  "BuildObject ext s type tile ow town =
     (let spec = ObjectSpec_Get ext type;
          ta = \<lparr>ta_tile = tile, ta_w = GB (spec_size spec) 0 4, ta_h = GB (spec_size spec) 4 4\<rparr>
      in if \<not> CanAllocateItem ext s then None
         else
           let index = FindFirstFree (object_pool s);
               otown = (case town of None \<Rightarrow> CalcClosestTownFromTile ext s tile | Some tw \<Rightarrow> Some tw)
           in case otown of
                None \<Rightarrow> None
              | Some tw \<Rightarrow>
                  let ob = \<lparr>location = ta, o_town = tw, build_date = cur_date s\<rparr>;
                      s1 = s\<lparr>object_pool := pool_put (object_pool s) index ob\<rparr>;
                      s2 = fold (BuildObject_tile ext type ow index) (TILE_AREA_LOOP s1 ta) s1
                  in Some (IncTypeCount s2 type))"

subsection \<open>Growth of the company headquarters\<close>

text \<open>
  \<^verbatim>\<open>IncreaseAnimationStage(tile)\<close>: one more on the animation frame (a byte) of every
  tile of the object at \<open>tile\<close>.
\<close>

definition IncreaseAnimationStage :: "World \<Rightarrow> TileIndex \<Rightarrow> World option" where
  "IncreaseAnimationStage s tile =
     (case Object_GetByTile s tile of
        None \<Rightarrow> None
      | Some ob \<Rightarrow>
          Some (fold (\<lambda>t s1. SetAnimationFrame s1 t (GetAnimationFrame s1 t + 1))
                  (TILE_AREA_LOOP s (location ob)) s))"

abbreviation GetCompanyHQSize :: "World \<Rightarrow> TileIndex \<Rightarrow> 8 word" where
  "GetCompanyHQSize \<equiv> GetAnimationFrame"

abbreviation IncreaseCompanyHQSize :: "World \<Rightarrow> TileIndex \<Rightarrow> World option" where
  "IncreaseCompanyHQSize \<equiv> IncreaseAnimationStage"

text \<open>
  The chain \<^verbatim>\<open>(val = 0, score < 170) || (val++, score < 350) || ... || (val++, true)\<close> of
  \<^verbatim>\<open>UpdateCompanyHQ\<close>: each operand first sets or increments \<open>val\<close>, then tests the
  score; the first true test ends the chain.
\<close>

definition UpdateCompanyHQ_val :: "nat \<Rightarrow> 8 word" where
  "UpdateCompanyHQ_val score =
     (let val = 0 in
      if score < 170 then val else
      let val = val + 1 in
      if score < 350 then val else
      let val = val + 1 in
      if score < 520 then val else
      let val = val + 1 in
      if score < 720 then val else
      let val = val + 1 in val)"

text \<open>The \<^verbatim>\<open>while\<close> loop of \<^verbatim>\<open>UpdateCompanyHQ\<close>; \<open>None\<close> when it aborts or never ends.\<close>

partial_function (option) UpdateCompanyHQ_loop :: "World \<Rightarrow> TileIndex \<Rightarrow> 8 word \<Rightarrow> World option" where
  "UpdateCompanyHQ_loop s tile val =
     (if GetCompanyHQSize s tile < val
      then Option.bind (IncreaseCompanyHQSize s tile) (\<lambda>s1. UpdateCompanyHQ_loop s1 tile val)
      else Some s)"

declare UpdateCompanyHQ_loop.simps [code]

definition UpdateCompanyHQ :: "World \<Rightarrow> TileIndex \<Rightarrow> nat \<Rightarrow> World option" where
  "UpdateCompanyHQ s tile score =
     (if tile = INVALID_TILE then Some s
      else UpdateCompanyHQ_loop s tile (UpdateCompanyHQ_val score))"

subsection \<open>\<^verbatim>\<open>ClearTile_Object\<close>\<close>

text \<open>
  Modelled from the spec: \<^verbatim>\<open>CheckTileOwnership\<close> (\<^verbatim>\<open>company_cmd.cpp\<close>), which fails
  when "the caller does not own the tile".
\<close>

definition CheckTileOwnership :: "World \<Rightarrow> TileIndex \<Rightarrow> CommandCost" where
  "CheckTileOwnership s t =
     (if GetTileOwner s t = current_company s then CommandCost_init INVALID_EXPENSES
      else return_cmd_error STR_ERROR_OWNED_BY)"

text \<open>
  The permission checks of \<^verbatim>\<open>ClearTile_Object\<close> (the block guarded by
  \<^verbatim>\<open>_current_company != OWNER_WATER\<close>): \<open>Some err\<close> is the early return of an error,
  \<open>None\<close> lets the function go on.
\<close>

definition ClearTile_Object_permission ::
  "World \<Rightarrow> ObjectType \<Rightarrow> ObjectSpec \<Rightarrow> TileIndex \<Rightarrow> DoCommandFlag set \<Rightarrow> CommandCost option" where
  "ClearTile_Object_permission s type spec tile flags =
     (if current_company s \<noteq> OWNER_WATER then
        (if OBJECT_FLAG_AUTOREMOVE \<notin> spec_flags spec \<and> DC_AUTO \<in> flags then
           Some (return_cmd_error
                   (if type = OBJECT_HQ then STR_ERROR_COMPANY_HEADQUARTERS_IN
                    else STR_ERROR_OBJECT_IN_THE_WAY))
         else if game_mode s = GM_EDITOR then None
         else if GetTileOwner s tile = OWNER_NONE then
           (if \<not> magic_bulldozer s then Some CMD_ERROR else None)
         else if Failed (CheckTileOwnership s tile) then
           Some (return_cmd_error STR_ERROR_OWNED_BY)
         else if OBJECT_FLAG_AUTOREMOVE \<notin> spec_flags spec \<and> \<not> magic_bulldozer s then
           Some CMD_ERROR
         else None)
      else None)"

text \<open>
  The \<^verbatim>\<open>switch (type)\<close> of \<^verbatim>\<open>ClearTile_Object\<close>. The company of a headquarters is the
  one in the pool slot of the tile's owner; \<^verbatim>\<open>CargoPacket::InvalidateAllFrom\<close> is
  recorded in \<open>invalidated_hq_cargo\<close>. The division of \<^verbatim>\<open>Money\<close> truncates.
\<close>

definition ClearTile_Object_switch ::
  "Externals \<Rightarrow> World \<Rightarrow> ObjectType \<Rightarrow> Object \<Rightarrow> TileIndex \<Rightarrow> DoCommandFlag set \<Rightarrow> CommandCost
     \<Rightarrow> (CommandCost \<times> World) option" where
  "ClearTile_Object_switch ext s type ob tile flags cost =
     (if type = OBJECT_HQ then
        (let cid = GetTileOwner s tile in
         case pool_get (companies s) cid of
           None \<Rightarrow> None
         | Some c \<Rightarrow>
             let s1 = (if DC_EXEC \<in> flags
                       then s\<lparr>companies := (companies s)[cid := Some (c\<lparr>location_of_HQ := INVALID_TILE\<rparr>)],
                              invalidated_hq_cargo := cid # invalidated_hq_cargo s\<rparr>
                       else s)
             in Some (CommandCost_of EXPENSES_PROPERTY (CalculateCompanyValue ext s1 cid sdiv 100), s1))
      else if type = OBJECT_STATUE then
        (if DC_EXEC \<in> flags then
           (case pool_get (towns s) (o_town ob) of
              None \<Rightarrow> None
            | Some town \<Rightarrow>
                Some (cost, s\<lparr>towns := (towns s)[o_town ob :=
                                Some (town\<lparr>statues := unset_bit (GetTileOwner s tile) (statues town)\<rparr>)]\<rparr>))
         else Some (cost, s))
      else Some (cost, s))"

definition ClearTile_Object ::
  "Externals \<Rightarrow> World \<Rightarrow> TileIndex \<Rightarrow> DoCommandFlag set \<Rightarrow> (CommandCost \<times> World) option" where
  "ClearTile_Object ext s tile flags =
     (case GetObjectType s tile of
        None \<Rightarrow> None
      | Some type \<Rightarrow>
         (let spec = ObjectSpec_Get ext type in
          (case Object_GetByTile s tile of
             None \<Rightarrow> None
           | Some ob \<Rightarrow>
              (let ta = location ob in
               (case ClearTile_Object_permission s type spec tile flags of
                  Some err \<Rightarrow> Some (err, s)
                | None \<Rightarrow>
                   (let cost0 = CommandCost_of EXPENSES_CONSTRUCTION
                                  (spec_clear_cost spec * int (ta_w ta) * int (ta_h ta));
                        cost1 = (if OBJECT_FLAG_CLEAR_INCOME \<in> spec_flags spec
                                 then MultiplyCost cost0 (- 1) else cost0)
                    in (case ClearTile_Object_switch ext s type ob tile flags cost1 of
                          None \<Rightarrow> None
                        | Some (cost, s1) \<Rightarrow>
                           (if DC_EXEC \<in> flags then
                              (let s2 = DecTypeCount s1 type;
                                   s3 = fold (\<lambda>tile_cur s'. MakeWaterKeepingClass s' tile_cur
                                                              (GetTileOwner s' tile_cur))
                                          (TILE_AREA_LOOP s2 ta) s2;
                                   s4 = s3\<lparr>object_pool :=
                                             pool_delete (object_pool s3) (m2_index (tiles s tile))\<rparr>
                               in Some (cost, s4))
                            else Some (cost, s1)))))))))"

subsection \<open>\<^verbatim>\<open>CmdBuildObject\<close>\<close>

text \<open>
  Modelled from the spec: \<^verbatim>\<open>ObjectSpec::IsAvailable\<close> (\<^verbatim>\<open>newgrf_object.cpp\<close>), the
  "enabled" predicate of a kind.
\<close>

definition IsAvailable :: "ObjectSpec \<Rightarrow> bool" where
  "IsAvailable spec = spec_enabled spec"

text \<open>
  The checks of \<^verbatim>\<open>CmdBuildObject\<close> before the terrain check (availability, phase, pool
  capacity, existence of a town): \<open>Some err\<close> is the early return.
\<close>

definition CmdBuildObject_precheck :: "Externals \<Rightarrow> World \<Rightarrow> ObjectSpec \<Rightarrow> CommandCost option" where
  "CmdBuildObject_precheck ext s spec =
     (if \<not> IsAvailable spec then Some CMD_ERROR
      else if OBJECT_FLAG_ONLY_IN_SCENEDIT \<in> spec_flags spec
              \<and> (game_mode s \<noteq> GM_EDITOR \<or> current_company s \<noteq> OWNER_NONE) then Some CMD_ERROR
      else if OBJECT_FLAG_ONLY_IN_GAME \<in> spec_flags spec
              \<and> (game_mode s \<noteq> GM_NORMAL \<or> current_company s > MAX_COMPANIES) then Some CMD_ERROR
      else if \<not> CanAllocateItem ext s then Some (return_cmd_error STR_ERROR_TOO_MANY_OBJECTS)
      else if Town_GetNumItems s = 0 then Some (return_cmd_error STR_ERROR_MUST_FOUND_TOWN_FIRST)
      else None)"

text \<open>The terrain check: land clearing for owned land, \<^verbatim>\<open>CheckFlatLand\<close> otherwise.\<close>

definition CmdBuildObject_terrain ::
  "Externals \<Rightarrow> World \<Rightarrow> ObjectType \<Rightarrow> TileIndex \<Rightarrow> TileArea \<Rightarrow> DoCommandFlag set
     \<Rightarrow> CommandCost \<times> World" where
  "CmdBuildObject_terrain ext s type tile ta flags =
     (if type = OBJECT_OWNED_LAND then DoCommand_LANDSCAPE_CLEAR ext s tile flags
      else CheckFlatLand ext s ta flags)"

text \<open>
  The \<^verbatim>\<open>switch (type)\<close> of \<^verbatim>\<open>CmdBuildObject\<close>. \<open>Inl err\<close> is the early return of an
  error; \<open>Inr (cost, hq_score)\<close> goes on. For the headquarters, \<open>c\<close> is the company in
  the pool slot \<^verbatim>\<open>_current_company\<close> and \<^verbatim>\<open>c->index\<close> is that slot.
\<close>

definition CmdBuildObject_switch ::
  "Externals \<Rightarrow> World \<Rightarrow> ObjectType \<Rightarrow> TileIndex \<Rightarrow> DoCommandFlag set \<Rightarrow> CommandCost
     \<Rightarrow> ((CommandCost + CommandCost \<times> int) \<times> World) option" where
  "CmdBuildObject_switch ext s type tile flags cost =
     (if type = OBJECT_TRANSMITTER \<or> type = OBJECT_LIGHTHOUSE then
        (if fst (GetTileSlope s tile) \<noteq> SLOPE_FLAT
         then Some (Inl (return_cmd_error STR_ERROR_FLAT_LAND_REQUIRED), s)
         else Some (Inr (cost, 0), s))
      else if type = OBJECT_OWNED_LAND then
        (if IsTileType s tile MP_OBJECT \<and> IsTileOwner s tile (current_company s) \<and> IsOwnedLand s tile
         then Some (Inl (return_cmd_error STR_ERROR_YOU_ALREADY_OWN_IT), s)
         else Some (Inr (cost, 0), s))
      else if type = OBJECT_HQ then
        (let cid = current_company s in
         case pool_get (companies s) cid of
           None \<Rightarrow> None
         | Some c \<Rightarrow>
             (case (if location_of_HQ c \<noteq> INVALID_TILE
                    then (case ClearTile_Object ext (s\<lparr>current_company := OWNER_WATER\<rparr>)
                                 (location_of_HQ c) flags of
                            None \<Rightarrow> None
                          | Some (ret, s1) \<Rightarrow> Some (AddCost cost ret, s1\<lparr>current_company := cid\<rparr>))
                    else Some (cost, s)) of
                None \<Rightarrow> None
              | Some (cost1, s2) \<Rightarrow>
                  if DC_EXEC \<in> flags then
                    (case pool_get (companies s2) cid of
                       None \<Rightarrow> None
                     | Some c2 \<Rightarrow>
                         let hq_score = UpdateCompanyRatingAndValue ext s2 cid;
                             s3 = s2\<lparr>companies :=
                                       (companies s2)[cid := Some (c2\<lparr>location_of_HQ := tile\<rparr>)]\<rparr>
                         in Some (Inr (cost1, hq_score), s3))
                  else Some (Inr (cost1, 0), s2)))
      else Some (Inr (cost, 0), s))"

text \<open>
  The block \<^verbatim>\<open>if (flags & DC_EXEC) { BuildObject(...); if (type == OBJECT_HQ)
  UpdateCompanyHQ(tile, hq_score); }\<close>. The \<^verbatim>\<open>int\<close> score is converted to \<^verbatim>\<open>uint\<close>.
\<close>

definition CmdBuildObject_exec ::
  "Externals \<Rightarrow> World \<Rightarrow> ObjectType \<Rightarrow> TileIndex \<Rightarrow> int \<Rightarrow> World option" where
  "CmdBuildObject_exec ext s type tile hq_score =
     (case BuildObject ext s type tile (current_company s) None of
        None \<Rightarrow> None
      | Some s1 \<Rightarrow>
          if type = OBJECT_HQ then UpdateCompanyHQ s1 tile (nat (hq_score mod 2 ^ 32))
          else Some s1)"

text \<open>\<^verbatim>\<open>CmdBuildObject(tile, flags, p1, p2, text)\<close>; \<open>p2\<close> and \<open>text\<close> are unused.\<close>

definition CmdBuildObject ::
  "Externals \<Rightarrow> World \<Rightarrow> TileIndex \<Rightarrow> DoCommandFlag set \<Rightarrow> nat \<Rightarrow> (CommandCost \<times> World) option" where
  "CmdBuildObject ext s tile flags p1 =
     (let cost = CommandCost_init EXPENSES_PROPERTY;
          type = GB p1 0 8;
          spec = ObjectSpec_Get ext type
      in (case CmdBuildObject_precheck ext s spec of
            Some err \<Rightarrow> Some (err, s)
          | None \<Rightarrow>
             (let size_x = GB (spec_size spec) 0 4;
                  size_y = GB (spec_size spec) 4 4;
                  ta = \<lparr>ta_tile = tile, ta_w = size_x, ta_h = size_y\<rparr>;
                  (ret, s1) = CmdBuildObject_terrain ext s type tile ta flags;
                  cost1 = AddCost cost ret
              in (if Failed cost1 then Some (cost1, s1)
                  else
                   (case CmdBuildObject_switch ext s1 type tile flags cost1 of
                      None \<Rightarrow> None
                    | Some (Inl err, s2) \<Rightarrow> Some (err, s2)
                    | Some (Inr (cost2, hq_score), s2) \<Rightarrow>
                       (case (if DC_EXEC \<in> flags then CmdBuildObject_exec ext s2 type tile hq_score
                              else Some s2) of
                          None \<Rightarrow> None
                        | Some s3 \<Rightarrow>
                            Some (AddCostMoney cost2
                                    (spec_build_cost (ObjectSpec_Get ext type)
                                       * int size_x * int size_y),
                                  s3)))))))"

subsection \<open>World generation: \<^verbatim>\<open>IsRadioTowerNearby\<close> and \<^verbatim>\<open>GenerateObjects\<close>\<close>

text \<open>
  Modelled from the spec: \<^verbatim>\<open>RandomTile\<close> (\<^verbatim>\<open>map_func.h\<close>), which "samples a uniformly
  random cell": a random value reduced to the size of the map.
\<close>

definition RandomTile :: "Externals \<Rightarrow> World \<Rightarrow> TileIndex \<times> World" where
  "RandomTile ext s = (let (r, s1) = Random ext s in (unat r mod MapSize s, s1))"

definition IsRadioTowerNearby :: "World \<Rightarrow> TileIndex \<Rightarrow> bool" where
  "IsRadioTowerNearby s tile =
     (let tile_s = tile - TileDiffXY s (min (TileX s tile) 4) (min (TileY s tile) 4);
          w = min (TileX s tile) 4 + 1 + min (MapMaxX s - TileX s tile) 4;
          h = min (TileY s tile) 4 + 1 + min (MapMaxY s - TileY s tile) 4
      in list_ex (IsTransmitterTile s) (TILE_LOOP s w h tile_s))"

text \<open>
  The count of water tiles along the four border lines, as the two \<^verbatim>\<open>for\<close> loops of
  \<^verbatim>\<open>GenerateObjects\<close> compute it.
\<close>

definition GenerateObjects_num_water_tiles :: "World \<Rightarrow> 32 word" where
  "GenerateObjects_num_water_tiles s =
     (let n1 = fold (\<lambda>x n.
                  let n' = (if IsTileType s (TileXY s x 1) MP_WATER then n + 1 else n)
                  in (if IsTileType s (TileXY s x (MapMaxY s - 1)) MP_WATER then n' + 1 else n'))
                [0..<MapMaxX s] 0
      in fold (\<lambda>y n.
                  let n' = (if IsTileType s (TileXY s 1 y) MP_WATER then n + 1 else n)
                  in (if IsTileType s (TileXY s (MapMaxX s - 1) y) MP_WATER then n' + 1 else n'))
           [1..<MapMaxY s - 1] n1)"

text \<open>
  The value of \<^verbatim>\<open>lighthouses_to_build\<close> before the placement loops. The product and the
  quotient are taken in unsigned 32-bit arithmetic, as the operands \<^verbatim>\<open>int * uint / uint\<close>
  are in C++; a zero divisor aborts.
\<close>

definition GenerateObjects_lighthouses_to_build ::
  "Externals \<Rightarrow> World \<Rightarrow> (32 word \<times> World) option" where
  "GenerateObjects_lighthouses_to_build ext s =
     (let (lighthouses_to_build, s1) =
            (if landscape s = LT_TROPIC then (0, s)
             else (let (r, s') = Random ext s in (ScaleByMapSize1D ext ((r AND 3) + 7), s')))
      in if freeform_edges s1 \<and> lighthouses_to_build \<noteq> 0 then
           (let num_water_tiles = GenerateObjects_num_water_tiles s1;
                divisor = 2 * of_nat (MapMaxY s1) + 2 * of_nat (MapMaxX s1) - 6
            in if divisor = 0 then None
               else Some (lighthouses_to_build * num_water_tiles div divisor, s1))
         else Some (lighthouses_to_build, s1))"

text \<open>
  The radio tower loop \<^verbatim>\<open>for (uint i = ScaleByMapSize(1000); i != 0; i--)\<close>.
  \<^verbatim>\<open>BuildObject(OBJECT_TRANSMITTER, tile)\<close> has the default arguments
  \<^verbatim>\<open>owner = OWNER_NONE\<close> and \<^verbatim>\<open>town = NULL\<close>.
\<close>

fun GenerateObjects_radiotowers :: "Externals \<Rightarrow> nat \<Rightarrow> World \<Rightarrow> int \<Rightarrow> World option" where
  "GenerateObjects_radiotowers ext 0 s radiotower_to_build = Some s"
| "GenerateObjects_radiotowers ext (Suc i) s radiotower_to_build =
     (let (tile, s1) = RandomTile ext s;
          (slope, h) = GetTileSlope s1 tile
      in if IsTileType s1 tile MP_CLEAR \<and> slope = SLOPE_FLAT \<and> h \<ge> TILE_HEIGHT * 4
            \<and> \<not> IsBridgeAbove s1 tile then
           (if IsRadioTowerNearby s1 tile then
              GenerateObjects_radiotowers ext i s1 radiotower_to_build
            else
              (case BuildObject ext s1 OBJECT_TRANSMITTER tile OWNER_NONE None of
                 None \<Rightarrow> None
               | Some s2 \<Rightarrow>
                   (if radiotower_to_build - 1 = 0 then Some s2
                    else GenerateObjects_radiotowers ext i s2 (radiotower_to_build - 1))))
         else GenerateObjects_radiotowers ext i s1 radiotower_to_build)"

definition DiagDirToAxis :: "DiagDirection \<Rightarrow> Axis" where
  "DiagDirToAxis d = (if d mod 2 = 0 then AXIS_X else AXIS_Y)"

text \<open>
  The loop \<^verbatim>\<open>for (dir = DIAGDIR_NE; perimeter > 0; dir++)\<close>; \<open>perimeter\<close> is a signed
  32-bit integer.
\<close>

partial_function (option) GenerateObjects_dir ::
  "32 word \<Rightarrow> 32 word \<Rightarrow> DiagDirection \<Rightarrow> 32 word \<Rightarrow> DiagDirection option" where
  "GenerateObjects_dir maxx maxy dir perimeter =
     (if 0 <s perimeter
      then GenerateObjects_dir maxx maxy (dir + 1)
             (perimeter - (if DiagDirToAxis dir = AXIS_X then maxx else maxy))
      else Some dir)"

declare GenerateObjects_dir.simps [code]

text \<open>The \<^verbatim>\<open>switch (dir)\<close> that picks the start tile on the border; \<^verbatim>\<open>r % 0\<close> aborts.\<close>

definition GenerateObjects_start ::
  "World \<Rightarrow> nat \<Rightarrow> nat \<Rightarrow> 32 word \<Rightarrow> DiagDirection \<Rightarrow> TileIndex option" where
  "GenerateObjects_start s maxx maxy r dir =
     (if dir = DIAGDIR_SE then
        (if maxx = 0 then None else Some (TileXY s (unat r mod maxx) 1))
      else if dir = DIAGDIR_SW then
        (if maxy = 0 then None else Some (TileXY s 1 (unat r mod maxy)))
      else if dir = DIAGDIR_NW then
        (if maxx = 0 then None else Some (TileXY s (unat r mod maxx) (maxy - 1)))
      else
        (if maxy = 0 then None else Some (TileXY s (maxx - 1) (unat r mod maxy))))"

text \<open>
  Modelled from the spec: \<^verbatim>\<open>TileIndexDiffCByDiagDir\<close> and \<^verbatim>\<open>AddTileIndexDiffCWrap\<close>
  (\<^verbatim>\<open>map_func.h\<close>), the step "inward along the perpendicular-to-edge direction" that
  yields \<^verbatim>\<open>INVALID_TILE\<close> when it "exits the map".
\<close>

definition TileIndexDiffCByDiagDir :: "DiagDirection \<Rightarrow> (int \<times> int) option" where
  "TileIndexDiffCByDiagDir dir =
     (if dir = DIAGDIR_NE then Some (- 1, 0)
      else if dir = DIAGDIR_SE then Some (0, 1)
      else if dir = DIAGDIR_SW then Some (1, 0)
      else if dir = DIAGDIR_NW then Some (0, - 1)
      else None)"

definition AddTileIndexDiffCWrap :: "World \<Rightarrow> TileIndex \<Rightarrow> int \<times> int \<Rightarrow> TileIndex" where
  "AddTileIndexDiffCWrap s tile diff =
     (let x = int (TileX s tile) + fst diff;
          y = int (TileY s tile) + snd diff
      in if x < 0 \<or> y < 0 \<or> x \<ge> int (MapSizeX s) \<or> y \<ge> int (MapSizeY s) then INVALID_TILE
         else TileXY s (nat x) (nat y))"

text \<open>
  The inner loop \<^verbatim>\<open>for (int j = 0; j < 19; j++)\<close> of the lighthouse pass; it returns the
  world and the remaining \<^verbatim>\<open>lighthouses_to_build\<close>.
\<close>

function GenerateObjects_walk ::
  "Externals \<Rightarrow> nat \<Rightarrow> DiagDirection \<Rightarrow> TileIndex \<Rightarrow> World \<Rightarrow> 32 word \<Rightarrow> (World \<times> 32 word) option" where
  "GenerateObjects_walk ext j dir tile s lighthouses_to_build =
     (if j < 19 then
        (let (slope, h) = GetTileSlope s tile
         in if IsTileType s tile MP_CLEAR \<and> slope = SLOPE_FLAT \<and> h \<le> TILE_HEIGHT * 2
               \<and> \<not> IsBridgeAbove s tile then
              (case BuildObject ext s OBJECT_LIGHTHOUSE tile OWNER_NONE None of
                 None \<Rightarrow> None
               | Some s1 \<Rightarrow>
                   (if tile < MapSize s1 then Some (s1, lighthouses_to_build - 1) else None))
            else
              (case TileIndexDiffCByDiagDir dir of
                 None \<Rightarrow> None
               | Some diff \<Rightarrow>
                   (let tile1 = AddTileIndexDiffCWrap s tile diff
                    in if tile1 = INVALID_TILE then Some (s, lighthouses_to_build)
                       else GenerateObjects_walk ext (j + 1) dir tile1 s lighthouses_to_build)))
      else Some (s, lighthouses_to_build))"
  by pat_completeness auto
termination
  by (relation "measure (\<lambda>(ext, j, dir, tile, s, l). 19 - j)") auto

text \<open>
  The lighthouse loop
  \<^verbatim>\<open>for (loop_count = 0; loop_count < 1000 && lighthouses_to_build != 0; loop_count++)\<close>.
\<close>

function GenerateObjects_lighthouses ::
  "Externals \<Rightarrow> nat \<Rightarrow> World \<Rightarrow> 32 word \<Rightarrow> World option" where
  "GenerateObjects_lighthouses ext loop_count s lighthouses_to_build =
     (if loop_count < 1000 \<and> lighthouses_to_build \<noteq> 0 then
        (let maxx = MapMaxX s;
             maxy = MapMaxY s;
             (r, s1) = Random ext s;
             modulus = 2 * (of_nat maxx + of_nat maxy)
         in if modulus = 0 then None
            else
              (let perimeter = (of_nat (GB (unat r) 16 16) mod modulus) - of_nat maxy
               in (case GenerateObjects_dir (of_nat maxx) (of_nat maxy) DIAGDIR_NE perimeter of
                     None \<Rightarrow> None
                   | Some dir \<Rightarrow>
                      (case GenerateObjects_start s1 maxx maxy r dir of
                         None \<Rightarrow> None
                       | Some tile \<Rightarrow>
                          (if \<not> IsTileType s1 tile MP_WATER then
                             GenerateObjects_lighthouses ext (loop_count + 1) s1 lighthouses_to_build
                           else
                             (case GenerateObjects_walk ext 0 dir tile s1 lighthouses_to_build of
                                None \<Rightarrow> None
                              | Some (s2, l2) \<Rightarrow>
                                  GenerateObjects_lighthouses ext (loop_count + 1) s2 l2))))))
      else Some s)"
  by pat_completeness auto
termination
  by (relation "measure (\<lambda>(ext, loop_count, s, l). 1000 - loop_count)") auto

definition GenerateObjects :: "Externals \<Rightarrow> World \<Rightarrow> World option" where
  "GenerateObjects ext s =
     (if landscape s = LT_TOYLAND then Some s
      else
        (let radiotower_to_build = int (ScaleByMapSize ext 15)
         in (case GenerateObjects_lighthouses_to_build ext s of
               None \<Rightarrow> None
             | Some (lighthouses_to_build, s1) \<Rightarrow>
                (case GenerateObjects_radiotowers ext (ScaleByMapSize ext 1000) s1
                        radiotower_to_build of
                   None \<Rightarrow> None
                 | Some s2 \<Rightarrow> GenerateObjects_lighthouses ext 0 s2 lighthouses_to_build))))"

section \<open>Properties\<close>

subsection \<open>Predicates of the statements\<close>

text \<open>
  The two-phase contract of the host framework, for the terrain checks that
  \<^verbatim>\<open>CmdBuildObject\<close> delegates to: called without \<^verbatim>\<open>DC_EXEC\<close>, they return the world
  as they found it.
\<close>

definition estimate_preserves_world :: "Externals \<Rightarrow> bool" where
  "estimate_preserves_world ext =
     (\<forall>s ta tile flags. DC_EXEC \<notin> flags \<longrightarrow>
        snd (CheckFlatLand ext s ta flags) = s
        \<and> snd (DoCommand_LANDSCAPE_CLEAR ext s tile flags) = s)"

text \<open>
  The cost that the forced clearing of the old headquarters adds to the total of
  \<^verbatim>\<open>CmdBuildObject\<close> (the call \<^verbatim>\<open>cost.AddCost(ClearTile_Object(c->location_of_HQ,
  flags))\<close> under \<^verbatim>\<open>_current_company = OWNER_WATER\<close>), in the world \<open>s\<close> that the terrain
  check returned; zero when the kind is not the headquarters or the company has none.
\<close>

definition CmdBuildObject_relocation_cost ::
  "Externals \<Rightarrow> World \<Rightarrow> ObjectType \<Rightarrow> DoCommandFlag set \<Rightarrow> Money" where
  "CmdBuildObject_relocation_cost ext s type flags =
     (if type = OBJECT_HQ then
        (case pool_get (companies s) (current_company s) of
           None \<Rightarrow> 0
         | Some c \<Rightarrow>
             (if location_of_HQ c \<noteq> INVALID_TILE then
                (case ClearTile_Object ext (s\<lparr>current_company := OWNER_WATER\<rparr>)
                        (location_of_HQ c) flags of
                   None \<Rightarrow> 0
                 | Some (ret, s1) \<Rightarrow> cc_cost ret)
              else 0))
      else 0)"

text \<open>
  The checks of \<^verbatim>\<open>CmdBuildObject\<close> that precede the capacity check: the kind is
  available and may be built in the current phase of the game.
\<close>

definition kind_buildable_now :: "World \<Rightarrow> ObjectSpec \<Rightarrow> bool" where
  "kind_buildable_now s spec =
     (IsAvailable spec
      \<and> (OBJECT_FLAG_ONLY_IN_SCENEDIT \<in> spec_flags spec
           \<longrightarrow> game_mode s = GM_EDITOR \<and> current_company s = OWNER_NONE)
      \<and> (OBJECT_FLAG_ONLY_IN_GAME \<in> spec_flags spec
           \<longrightarrow> game_mode s = GM_NORMAL \<and> current_company s \<le> MAX_COMPANIES))"

text \<open>
  The total that \<^verbatim>\<open>CmdBuildObject\<close> returns on success: the cost of the terrain check,
  the cost of relocating an old headquarters, and the build cost of the kind times the
  area of its footprint.
\<close>

definition CmdBuildObject_total ::
  "Externals \<Rightarrow> World \<Rightarrow> TileIndex \<Rightarrow> DoCommandFlag set \<Rightarrow> nat \<Rightarrow> Money" where
  "CmdBuildObject_total ext s tile flags p1 =
     (let type = GB p1 0 8;
          spec = ObjectSpec_Get ext type;
          size_x = GB (spec_size spec) 0 4;
          size_y = GB (spec_size spec) 4 4;
          ta = \<lparr>ta_tile = tile, ta_w = size_x, ta_h = size_y\<rparr>;
          (ret, s1) = CmdBuildObject_terrain ext s type tile ta flags
      in cc_cost ret + CmdBuildObject_relocation_cost ext s1 type flags
         + spec_build_cost spec * int size_x * int size_y)"

text \<open>
  The permission ladder of Clear, written from the words of the spec: rules (a) to (f),
  evaluated in order, the first matching rule decides. The arguments: the context is the
  privileged force context; the kind allows automatic removal; the request is an
  automatic overbuild-clearing; the game is in world-creation mode; the cell is unowned;
  the caller has the elevated bulldozer privilege; the caller owns the tile.
\<close>

datatype ClearPermission = ClearAllowed | ClearInTheWay | ClearRefused | ClearOwnedByOther

definition Clear_permission_ladder ::
  "bool \<Rightarrow> bool \<Rightarrow> bool \<Rightarrow> bool \<Rightarrow> bool \<Rightarrow> bool \<Rightarrow> bool \<Rightarrow> ClearPermission" where
  "Clear_permission_ladder forced autoremove auto_request editor unowned bulldozer caller_owns =
     (if forced then ClearAllowed
      else if \<not> autoremove \<and> auto_request then ClearInTheWay
      else if editor then ClearAllowed
      else if unowned then (if bulldozer then ClearAllowed else ClearRefused)
      else if \<not> caller_owns then ClearOwnedByOther
      else if \<not> autoremove \<and> \<not> bulldozer then ClearRefused
      else ClearAllowed)"

text \<open>The two messages that say that an object is in the way.\<close>

definition in_the_way_message :: "StringID \<Rightarrow> bool" where
  "in_the_way_message msg =
     (msg = STR_ERROR_OBJECT_IN_THE_WAY \<or> msg = STR_ERROR_COMPANY_HEADQUARTERS_IN)"

text \<open>
  Two worlds that differ at most in the animation frames of their tiles.
\<close>

definition frames_only :: "World \<Rightarrow> World \<Rightarrow> bool" where
  "frames_only s s' =
     (\<exists>f. s' = s\<lparr>tiles := (\<lambda>t. (tiles s t)\<lparr>m7_frame := f t\<rparr>)\<rparr>)"

text \<open>
  The water classification of a cell, as \<^verbatim>\<open>BuildObject\<close> reads it before it stamps the
  cell: the water class of a water tile, \<^verbatim>\<open>WATER_CLASS_INVALID\<close> for land.
\<close>

definition water_class_of_tile :: "World \<Rightarrow> TileIndex \<Rightarrow> WaterClass" where
  "water_class_of_tile s t = (if IsWaterTile s t then GetWaterClass s t else WATER_CLASS_INVALID)"

text \<open>
  Three more clauses of the contract between \<^verbatim>\<open>CmdBuildObject\<close> and the functions it
  calls in other files.
  \<^item> The terrain checks report the same result (success or failure, cost, message) in
    estimate mode and in commit mode.
  \<^item> A terrain check that succeeds leaves the acting company, the company pool and the
    old headquarters of the acting company (its tile and the object on it) alone.
  \<^item> The value of a company does not depend on the part of the game state that the
    model holds: \<^verbatim>\<open>CalculateCompanyValue\<close> counts stations and vehicles, money and loan.
\<close>

definition terrain_cost_mode_independent :: "Externals \<Rightarrow> bool" where
  "terrain_cost_mode_independent ext =
     (\<forall>s ta tile flags.
        fst (CheckFlatLand ext s ta (insert DC_EXEC flags))
          = fst (CheckFlatLand ext s ta (flags - {DC_EXEC}))
        \<and> fst (DoCommand_LANDSCAPE_CLEAR ext s tile (insert DC_EXEC flags))
          = fst (DoCommand_LANDSCAPE_CLEAR ext s tile (flags - {DC_EXEC})))"

definition commit_keeps_headquarters :: "Externals \<Rightarrow> bool" where
  "commit_keeps_headquarters ext =
     (\<forall>s ta tile flags r s'.
        (CheckFlatLand ext s ta flags = (r, s')
         \<or> DoCommand_LANDSCAPE_CLEAR ext s tile flags = (r, s'))
        \<and> cc_success r \<longrightarrow>
          current_company s' = current_company s \<and> companies s' = companies s
          \<and> (\<forall>c. pool_get (companies s) (current_company s) = Some c \<longrightarrow>
                tiles s' (location_of_HQ c) = tiles s (location_of_HQ c)
                \<and> Object_GetByTile s' (location_of_HQ c) = Object_GetByTile s (location_of_HQ c)))"

definition company_value_fixed :: "Externals \<Rightarrow> bool" where
  "company_value_fixed ext = (\<exists>v. \<forall>s cid. CalculateCompanyValue ext s cid = v cid)"

text \<open>
  A well-formed headquarters tile: the tile is an object tile whose object exists, the
  tile lies in the footprint of that object, \<^verbatim>\<open>TILE_AREA_LOOP\<close> visits no cell of the
  footprint twice, and every cell of the footprint stores the same size level, at most 4.
  This is how a committed \<^verbatim>\<open>CmdBuildObject\<close> leaves the headquarters in the small
  world below, and what \<^verbatim>\<open>UpdateCompanyHQ\<close> maintains.
\<close>

definition HQ_tile_wf :: "World \<Rightarrow> TileIndex \<Rightarrow> bool" where
  "HQ_tile_wf s tile =
     (case Object_GetByTile s tile of
        None \<Rightarrow> False
      | Some ob \<Rightarrow>
          tile \<in> set (TILE_AREA_LOOP s (location ob))
          \<and> distinct (TILE_AREA_LOOP s (location ob))
          \<and> (\<forall>t \<in> set (TILE_AREA_LOOP s (location ob)).
                GetCompanyHQSize s t = GetCompanyHQSize s tile)
          \<and> GetCompanyHQSize s tile \<le> 4)"

text \<open>
  A sequence of calls of \<^verbatim>\<open>UpdateCompanyHQ\<close> on the same tile, one per score; the result
  lists the size level read after each call.
\<close>

fun UpdateCompanyHQ_levels :: "World \<Rightarrow> TileIndex \<Rightarrow> nat list \<Rightarrow> 8 word list option" where
  "UpdateCompanyHQ_levels s tile [] = Some []"
| "UpdateCompanyHQ_levels s tile (score # scores) =
     (case UpdateCompanyHQ s tile score of
        None \<Rightarrow> None
      | Some s' \<Rightarrow>
          map_option ((#) (GetCompanyHQSize s' tile)) (UpdateCompanyHQ_levels s' tile scores))"

text \<open>
  The four border lines that \<^verbatim>\<open>GenerateObjects\<close> scans, as a list of cells: the rows
  \<open>y = 1\<close> and \<open>y = MapMaxY - 1\<close> for \<open>0 \<le> x < MapMaxX\<close>, and the columns \<open>x = 1\<close> and
  \<open>x = MapMaxX - 1\<close> for \<open>1 \<le> y < MapMaxY - 1\<close>; and the number of water cells among
  them.
\<close>

definition border_line_cells :: "World \<Rightarrow> TileIndex list" where
  "border_line_cells s =
     map (\<lambda>x. TileXY s x 1) [0..<MapMaxX s]
     @ map (\<lambda>x. TileXY s x (MapMaxY s - 1)) [0..<MapMaxX s]
     @ map (\<lambda>y. TileXY s 1 y) [1..<MapMaxY s - 1]
     @ map (\<lambda>y. TileXY s (MapMaxX s - 1) y) [1..<MapMaxY s - 1]"

definition border_water_count :: "World \<Rightarrow> nat" where
  "border_water_count s = length (filter (\<lambda>t. IsTileType s t MP_WATER) (border_line_cells s))"

subsection \<open>A small world for the closed instances\<close>

text \<open>
  A specification table in the shape of the game's own (\<open>1 \<times> 1\<close> transmitter, lighthouse,
  statue and owned land, a \<open>2 \<times> 2\<close> headquarters), terrain checks that charge a fixed
  cost and leave the world alone, a company worth 1000 with a rating of 400, and a flat
  \<open>16 \<times> 16\<close> map of bare land with one town and one company.
\<close>

definition demo_spec :: "ObjectType \<Rightarrow> ObjectSpec" where
  "demo_spec type =
     (if type = OBJECT_TRANSMITTER \<or> type = OBJECT_LIGHTHOUSE then
        \<lparr>spec_size = 17, spec_flags = {}, spec_enabled = True,
         spec_build_cost = 100, spec_clear_cost = 50\<rparr>
      else if type = OBJECT_STATUE then
        \<lparr>spec_size = 17, spec_flags = {OBJECT_FLAG_ONLY_IN_GAME}, spec_enabled = True,
         spec_build_cost = 100, spec_clear_cost = 50\<rparr>
      else if type = OBJECT_OWNED_LAND then
        \<lparr>spec_size = 17,
         spec_flags = {OBJECT_FLAG_AUTOREMOVE, OBJECT_FLAG_ONLY_IN_GAME, OBJECT_FLAG_CLEAR_INCOME},
         spec_enabled = True, spec_build_cost = 100, spec_clear_cost = 50\<rparr>
      else if type = OBJECT_HQ then
        \<lparr>spec_size = 34, spec_flags = {OBJECT_FLAG_ONLY_IN_GAME}, spec_enabled = True,
         spec_build_cost = 100, spec_clear_cost = 50\<rparr>
      else
        \<lparr>spec_size = 17, spec_flags = {}, spec_enabled = False,
         spec_build_cost = 0, spec_clear_cost = 0\<rparr>)"

definition demo_ext :: Externals where
  "demo_ext =
     \<lparr>ObjectSpec_Get = demo_spec,
      Object_pool_max_size = 4,
      CheckFlatLand = (\<lambda>s ta flags. (CommandCost_of EXPENSES_CONSTRUCTION 20, s)),
      DoCommand_LANDSCAPE_CLEAR = (\<lambda>s t flags. (CommandCost_of EXPENSES_CONSTRUCTION 5, s)),
      CalcClosestTownFromTile = (\<lambda>s t. if pool_items (towns s) = 0 then None else Some 0),
      UpdateCompanyRatingAndValue = (\<lambda>s c. 400),
      CalculateCompanyValue = (\<lambda>s c. 1000),
      Random_values = (\<lambda>n. of_nat (7 * n + 3)),
      ScaleByMapSize = (\<lambda>n. (n + 499) div 500),
      ScaleByMapSize1D = (\<lambda>n. n)\<rparr>"

definition demo_tile :: Tile where
  "demo_tile =
     \<lparr>tile_type = MP_CLEAR, tile_owner = OWNER_NONE, water_class = WATER_CLASS_INVALID,
      water_tile_type = WATER_TILE_CLEAR, m2_index = 0, m3_random = 0, m5_object_type = 0,
      m7_frame = 0, tile_slope = SLOPE_FLAT, tile_z = 40, bridge_above = False\<rparr>"

definition demo_world :: World where
  "demo_world =
     \<lparr>tiles = (\<lambda>t. demo_tile), MapSizeX = 16, MapSizeY = 16, object_pool = [],
      counts = (\<lambda>type. 0), companies = [Some \<lparr>location_of_HQ = INVALID_TILE\<rparr>],
      towns = [Some \<lparr>statues = 0\<rparr>], current_company = 0, game_mode = GM_NORMAL,
      magic_bulldozer = False, cur_date = 0, landscape = LT_TEMPERATE, freeform_edges = False,
      random_calls = 0, invalidated_hq_cargo = []\<rparr>"

text \<open>
  The same world after company 0 has built its headquarters on the tiles 20, 21, 36 and
  37, with the bulldozer cheat switched on.
\<close>

definition demo_hq_tile :: Tile where
  "demo_hq_tile =
     demo_tile\<lparr>tile_type := MP_OBJECT, tile_owner := 0, m5_object_type := OBJECT_HQ\<rparr>"

definition demo_world_hq :: World where
  "demo_world_hq =
     demo_world\<lparr>tiles := (\<lambda>t. if t \<in> {20, 21, 36, 37} then demo_hq_tile else demo_tile),
       object_pool := [Some \<lparr>location = \<lparr>ta_tile = 20, ta_w = 2, ta_h = 2\<rparr>, o_town = 0,
                             build_date = 0\<rparr>],
       counts := (\<lambda>type. if type = OBJECT_HQ then 1 else 0),
       companies := [Some \<lparr>location_of_HQ = 20\<rparr>],
       magic_bulldozer := True\<rparr>"

text \<open>
  Two ways in which the small world fills its object pool of four slots, both by the
  code of this file alone. In the first, world generation places four transmitters with
  \<^verbatim>\<open>BuildObject\<close>, under a specification table that, like the game's own, marks the
  transmitter as a kind for the scenario editor only. In the second, company 0 buys
  four parcels of land with successful \<^verbatim>\<open>CmdBuildObject\<close> commands in commit mode.
\<close>

definition demo_ext_gen :: Externals where
  "demo_ext_gen =
     demo_ext\<lparr>ObjectSpec_Get :=
       (\<lambda>type. if type = OBJECT_TRANSMITTER
               then (demo_spec type)\<lparr>spec_flags := {OBJECT_FLAG_ONLY_IN_SCENEDIT}\<rparr>
               else demo_spec type)\<rparr>"

fun demo_place :: "Externals \<Rightarrow> World \<Rightarrow> ObjectType \<Rightarrow> TileIndex list \<Rightarrow> World option" where
  "demo_place ext s type [] = Some s"
| "demo_place ext s type (t # ts) =
     (case BuildObject ext s type t OWNER_NONE None of
        None \<Rightarrow> None
      | Some s1 \<Rightarrow> demo_place ext s1 type ts)"

fun demo_commands :: "Externals \<Rightarrow> World \<Rightarrow> nat \<Rightarrow> TileIndex list \<Rightarrow> World option" where
  "demo_commands ext s p1 [] = Some s"
| "demo_commands ext s p1 (t # ts) =
     (case CmdBuildObject ext s t {DC_EXEC} p1 of
        None \<Rightarrow> None
      | Some (r, s1) \<Rightarrow> if Succeeded r then demo_commands ext s1 p1 ts else None)"

definition demo_world_towers :: World where
  "demo_world_towers = the (demo_place demo_ext_gen demo_world OBJECT_TRANSMITTER [1, 6, 11, 16])"

definition demo_world_parcels :: World where
  "demo_world_parcels = the (demo_commands demo_ext demo_world 3 [1, 6, 11, 16])"

text \<open>The small world after company 0 has built its headquarters at tile 20.\<close>

definition demo_world_built :: World where
  "demo_world_built = the (demo_commands demo_ext demo_world 4 [20])"


lemmas demo_defs =
  demo_ext_def demo_world_def demo_spec_def demo_tile_def demo_world_hq_def demo_hq_tile_def

lemmas const_defs =
  OBJECT_HQ_def OBJECT_TRANSMITTER_def OBJECT_LIGHTHOUSE_def OBJECT_STATUE_def
  OBJECT_OWNED_LAND_def INVALID_TILE_def MAX_COMPANIES_def OWNER_NONE_def OWNER_WATER_def
  SLOPE_FLAT_def TILE_HEIGHT_def

lemmas cost_defs =
  AddCost_def CommandCost_init_def CommandCost_of_def Failed_def Succeeded_def AddCostMoney_def
  return_cmd_error_def CMD_ERROR_def MultiplyCost_def

lemmas tile_defs =
  IsWaterTile_def IsTileType_def GetWaterClass_def GetTileOwner_def IsTileOwner_def
  GetTileSlope_def IsBridgeAbove_def GetObjectType_def GetObjectIndex_def IsOwnedLand_def
  IsTransmitterTile_def GetAnimationFrame_def SetAnimationFrame_def MakeObject_def
  MakeWater_def DoClearSquare_def MakeWaterKeepingClass_def

lemmas cmd_defs =
  CmdBuildObject_def CmdBuildObject_precheck_def IsAvailable_def CanAllocateItem_def
  Town_GetNumItems_def CmdBuildObject_terrain_def CmdBuildObject_switch_def pool_get_def
  CmdBuildObject_exec_def BuildObject_def TILE_AREA_LOOP_def TILE_LOOP_def TileDiffXY_def
  BuildObject_tile_def Random_def IncTypeCount_def pool_put_def ClearTile_Object_def
  ClearTile_Object_permission_def ClearTile_Object_switch_def Object_GetByTile_def
  CheckTileOwnership_def DecTypeCount_def pool_delete_def GB_def

subsection \<open>Estimate mode changes nothing\<close>

lemma ClearTile_Object_switch_estimate:
  "DC_EXEC \<notin> flags \<Longrightarrow> ClearTile_Object_switch ext s type ob tile flags cost = Some (r, s')
     \<Longrightarrow> s' = s"
  by (auto simp: ClearTile_Object_switch_def Let_def split: if_splits option.splits)

lemma ClearTile_Object_estimate:
  "DC_EXEC \<notin> flags \<Longrightarrow> ClearTile_Object ext s tile flags = Some (r, s') \<Longrightarrow> s' = s"
  by (auto simp: ClearTile_Object_def Let_def split: if_splits option.splits
      dest: ClearTile_Object_switch_estimate)

lemma CmdBuildObject_switch_estimate:
  "DC_EXEC \<notin> flags \<Longrightarrow> CmdBuildObject_switch ext s type tile flags cost = Some (r, s')
     \<Longrightarrow> s' = s"
  by (auto simp: CmdBuildObject_switch_def Let_def split: if_splits option.splits
      dest!: ClearTile_Object_estimate)

lemma CmdBuildObject_terrain_estimate:
  "DC_EXEC \<notin> flags \<Longrightarrow> estimate_preserves_world ext
     \<Longrightarrow> snd (CmdBuildObject_terrain ext s type tile ta flags) = s"
  by (simp add: CmdBuildObject_terrain_def estimate_preserves_world_def)

lemma demo_ext_estimate: "estimate_preserves_world demo_ext"
  by (simp add: estimate_preserves_world_def demo_ext_def)

lemma demo_hq_estimate:
  "CmdBuildObject demo_ext demo_world_hq 100 {} 4 =
     Some (\<lparr>cc_expense_type = EXPENSES_PROPERTY, cc_cost = 430, cc_message = INVALID_STRING_ID,
            cc_success = True\<rparr>, demo_world_hq)"
  by (simp add: cmd_defs demo_defs const_defs cost_defs tile_defs Let_def)

text \<open>
  C1. \<^verbatim>\<open>CmdBuildObject\<close> called without \<^verbatim>\<open>DC_EXEC\<close> returns the world it was given:
  the object pool, the map array, the per-type counts and the company and town pools
  (and every other component of the world) are as before the call, whether the result is
  a cost or an error. The terrain checks it delegates to are taken to honour the same
  contract.
\<close>

theorem CmdBuildObject_estimate_frame:
  assumes "DC_EXEC \<notin> flags"
    and "estimate_preserves_world ext"
    and "CmdBuildObject ext s tile flags p1 = Some (r, s')"
  shows "object_pool s' = object_pool s \<and> tiles s' = tiles s \<and> counts s' = counts s
         \<and> companies s' = companies s \<and> towns s' = towns s \<and> s' = s"
proof -
  have t: "snd (CmdBuildObject_terrain ext s type tile ta flags) = s" for type ta
    using assms(1,2) by (rule CmdBuildObject_terrain_estimate)
  have "s' = s"
    using assms(1,3) t
    by (auto simp: CmdBuildObject_def Let_def split: if_splits option.splits prod.splits sum.splits
        dest!: CmdBuildObject_switch_estimate) (metis snd_conv)+
  then show ?thesis by simp
qed

theorem CmdBuildObject_estimate_frame_witness:
  "DC_EXEC \<notin> ({} :: DoCommandFlag set) \<and> estimate_preserves_world demo_ext
   \<and> CmdBuildObject demo_ext demo_world_hq 100 {} 4 =
       Some (\<lparr>cc_expense_type = EXPENSES_PROPERTY, cc_cost = 430,
              cc_message = INVALID_STRING_ID, cc_success = True\<rparr>, demo_world_hq)
   \<and> companies demo_world_hq = [Some \<lparr>location_of_HQ = 20\<rparr>]"
proof -
  have h1: "DC_EXEC \<notin> ({} :: DoCommandFlag set)" by simp
  from CmdBuildObject_estimate_frame [OF h1 demo_ext_estimate demo_hq_estimate]
  have "companies demo_world_hq = companies demo_world_hq" by simp
  then show ?thesis
    using h1 demo_ext_estimate demo_hq_estimate by (simp add: demo_world_hq_def)
qed

subsection \<open>The invalid tile\<close>

text \<open>
  C10. \<^verbatim>\<open>UpdateCompanyHQ\<close> called with \<^verbatim>\<open>INVALID_TILE\<close> returns at once, for every score:
  the result is the world it was given, whatever that world is.
\<close>

theorem UpdateCompanyHQ_invalid_tile:
  "UpdateCompanyHQ s INVALID_TILE score = Some s"
  by (simp add: UpdateCompanyHQ_def)

theorem UpdateCompanyHQ_invalid_tile_witness:
  "UpdateCompanyHQ demo_world_hq INVALID_TILE 1000 = Some demo_world_hq"
  by (rule UpdateCompanyHQ_invalid_tile)

subsection \<open>The total cost\<close>

lemma AddCost_cost [simp]: "cc_cost (AddCost a b) = cc_cost a + cc_cost b"
  by (simp add: AddCost_def Let_def)

lemma AddCost_success [simp]: "cc_success (AddCost a b) = (cc_success a \<and> cc_success b)"
  by (auto simp: AddCost_def Let_def)

lemma AddCostMoney_simps [simp]:
  "cc_cost (AddCostMoney a m) = cc_cost a + m"
  "cc_success (AddCostMoney a m) = cc_success a"
  by (simp_all add: AddCostMoney_def)

lemma return_cmd_error_fails [simp]: "\<not> cc_success (return_cmd_error msg)"
  by (simp add: return_cmd_error_def)

lemma CMD_ERROR_fails [simp]: "\<not> cc_success CMD_ERROR"
  by (simp add: CMD_ERROR_def)

lemma CommandCost_init_simps [simp]:
  "cc_cost (CommandCost_init e) = 0"
  "cc_success (CommandCost_init e)"
  by (simp_all add: CommandCost_init_def)

lemma CmdBuildObject_precheck_fails:
  "CmdBuildObject_precheck ext s spec = Some err \<Longrightarrow> \<not> cc_success err"
  by (auto simp: CmdBuildObject_precheck_def split: if_splits)

lemma CmdBuildObject_switch_Inl_fails:
  "CmdBuildObject_switch ext s type tile flags cost = Some (Inl err, s2) \<Longrightarrow> \<not> cc_success err"
  by (auto simp: CmdBuildObject_switch_def Let_def split: if_splits option.splits prod.splits)

text \<open>The path of a successful call through \<^verbatim>\<open>CmdBuildObject\<close>.\<close>

lemma CmdBuildObject_success:
  assumes "CmdBuildObject ext s tile flags p1 = Some (r, s')"
    and "Succeeded r"
  shows "\<exists>ret s1 cost2 hq_score s2.
           CmdBuildObject_precheck ext s (ObjectSpec_Get ext (GB p1 0 8)) = None
           \<and> CmdBuildObject_terrain ext s (GB p1 0 8) tile
                 \<lparr>ta_tile = tile, ta_w = GB (spec_size (ObjectSpec_Get ext (GB p1 0 8))) 0 4,
                  ta_h = GB (spec_size (ObjectSpec_Get ext (GB p1 0 8))) 4 4\<rparr> flags = (ret, s1)
           \<and> cc_success ret
           \<and> CmdBuildObject_switch ext s1 (GB p1 0 8) tile flags
                 (AddCost (CommandCost_init EXPENSES_PROPERTY) ret) = Some (Inr (cost2, hq_score), s2)
           \<and> (if DC_EXEC \<in> flags then CmdBuildObject_exec ext s2 (GB p1 0 8) tile hq_score = Some s'
               else s' = s2)
           \<and> r = AddCostMoney cost2
                   (spec_build_cost (ObjectSpec_Get ext (GB p1 0 8))
                      * int (GB (spec_size (ObjectSpec_Get ext (GB p1 0 8))) 0 4)
                      * int (GB (spec_size (ObjectSpec_Get ext (GB p1 0 8))) 4 4))"
proof (cases "CmdBuildObject_precheck ext s (ObjectSpec_Get ext (GB p1 0 8))")
  case (Some err)
  with assms show ?thesis
    by (auto simp: CmdBuildObject_def Let_def Succeeded_def dest: CmdBuildObject_precheck_fails)
next
  case None
  obtain ret s1 where t: "CmdBuildObject_terrain ext s (GB p1 0 8) tile
                 \<lparr>ta_tile = tile, ta_w = GB (spec_size (ObjectSpec_Get ext (GB p1 0 8))) 0 4,
                  ta_h = GB (spec_size (ObjectSpec_Get ext (GB p1 0 8))) 4 4\<rparr> flags = (ret, s1)"
    by (cases "CmdBuildObject_terrain ext s (GB p1 0 8) tile
                 \<lparr>ta_tile = tile, ta_w = GB (spec_size (ObjectSpec_Get ext (GB p1 0 8))) 0 4,
                  ta_h = GB (spec_size (ObjectSpec_Get ext (GB p1 0 8))) 4 4\<rparr> flags") auto
  show ?thesis
  proof (cases "cc_success ret")
    case False
    with assms None t show ?thesis
      by (auto simp: CmdBuildObject_def Let_def Succeeded_def Failed_def)
  next
    case True
    with assms None t show ?thesis
      by (auto simp: CmdBuildObject_def Let_def Succeeded_def Failed_def
          split: option.splits sum.splits prod.splits if_splits
          dest: CmdBuildObject_switch_Inl_fails)
  qed
qed

lemma CmdBuildObject_switch_cost:
  assumes "CmdBuildObject_switch ext s type tile flags cost = Some (Inr (cost2, hq_score), s2)"
  shows "cc_cost cost2 = cc_cost cost + CmdBuildObject_relocation_cost ext s type flags
         \<and> cc_success cost2 = (cc_success cost2 \<and> True)"
  using assms
  by (auto simp: CmdBuildObject_switch_def CmdBuildObject_relocation_cost_def Let_def const_defs
      split: if_splits option.splits prod.splits)

lemma CmdBuildObject_switch_relocates:
  assumes "CmdBuildObject_switch ext s OBJECT_HQ tile flags cost = Some x"
    and "pool_get (companies s) (current_company s) = Some c"
    and "location_of_HQ c \<noteq> INVALID_TILE"
  shows "\<exists>q sx. ClearTile_Object ext (s\<lparr>current_company := OWNER_WATER\<rparr>) (location_of_HQ c) flags
                 = Some (q, sx)"
  using assms
  by (auto simp: CmdBuildObject_switch_def Let_def const_defs split: option.splits if_splits)

text \<open>
  The cost of a forced clearing depends on the tile, on the object on it and on the
  value of the company only.
\<close>

lemma ClearTile_Object_forced_cost:
  assumes vf: "company_value_fixed ext"
    and a: "ClearTile_Object ext sa loc fa = Some (qa, sa')"
    and b: "ClearTile_Object ext sb loc fb = Some (qb, sb')"
    and wa: "current_company sa = OWNER_WATER" and wb: "current_company sb = OWNER_WATER"
    and t: "tiles sb loc = tiles sa loc"
    and ob: "Object_GetByTile sb loc = Object_GetByTile sa loc"
  shows "cc_cost qa = cc_cost qb"
proof -
  from vf obtain v where v: "\<And>s cid. CalculateCompanyValue ext s cid = v cid"
    unfolding company_value_fixed_def by blast
  have ty: "GetObjectType sb loc = GetObjectType sa loc"
    using t by (simp add: GetObjectType_def IsTileType_def)
  have ow: "GetTileOwner sb loc = GetTileOwner sa loc"
    using t by (simp add: GetTileOwner_def)
  have pa: "ClearTile_Object_permission sa type spec loc fa = None" for type spec
    using wa by (simp add: ClearTile_Object_permission_def)
  have pb: "ClearTile_Object_permission sb type spec loc fb = None" for type spec
    using wb by (simp add: ClearTile_Object_permission_def)
  have sw: "cc_cost ca = cc_cost cb"
    if "ClearTile_Object_switch ext sa type obj loc fa cost = Some (ca, ta)"
      and "ClearTile_Object_switch ext sb type obj loc fb cost = Some (cb, tb)"
    for type obj cost ca cb ta tb
    using that ow
    by (auto simp: ClearTile_Object_switch_def Let_def v CommandCost_of_def
        split: if_splits option.splits)
  from a b show ?thesis
    unfolding ClearTile_Object_def ty ob
    by (auto simp: Let_def pa pb split: option.splits if_splits prod.splits dest: sw)
qed

lemma CmdBuildObject_relocation_cost_modes:
  assumes kh: "commit_keeps_headquarters ext" and vf: "company_value_fixed ext"
    and tc: "CmdBuildObject_terrain ext s type tile ta fc = (ret, st)" and ok: "cc_success ret"
    and se: "CmdBuildObject_switch ext s type tile fe coste = Some xe"
    and sc: "CmdBuildObject_switch ext st type tile fc costc = Some xc"
  shows "CmdBuildObject_relocation_cost ext s type fe = CmdBuildObject_relocation_cost ext st type fc"
proof (cases "type = OBJECT_HQ")
  case False
  then show ?thesis by (simp add: CmdBuildObject_relocation_cost_def)
next
  case True
  from tc have "CheckFlatLand ext s ta fc = (ret, st)
                \<or> DoCommand_LANDSCAPE_CLEAR ext s tile fc = (ret, st)"
    by (auto simp: CmdBuildObject_terrain_def split: if_splits)
  with kh ok have cc: "current_company st = current_company s"
    and cs: "companies st = companies s"
    and hq: "\<And>c. pool_get (companies s) (current_company s) = Some c \<Longrightarrow>
                tiles st (location_of_HQ c) = tiles s (location_of_HQ c)
                \<and> Object_GetByTile st (location_of_HQ c) = Object_GetByTile s (location_of_HQ c)"
    unfolding commit_keeps_headquarters_def by blast+
  show ?thesis
  proof (cases "pool_get (companies s) (current_company s)")
    case None
    then show ?thesis
      by (simp add: CmdBuildObject_relocation_cost_def cc cs)
  next
    case (Some c)
    show ?thesis
    proof (cases "location_of_HQ c = INVALID_TILE")
      case True
      with Some show ?thesis
        by (simp add: CmdBuildObject_relocation_cost_def cc cs)
    next
      case False
      from CmdBuildObject_switch_relocates [OF se [unfolded \<open>type = OBJECT_HQ\<close>] Some False]
      obtain qe sxe where e: "ClearTile_Object ext (s\<lparr>current_company := OWNER_WATER\<rparr>)
                                (location_of_HQ c) fe = Some (qe, sxe)"
        by blast
      from Some have Some': "pool_get (companies st) (current_company st) = Some c"
        by (simp add: cc cs)
      from CmdBuildObject_switch_relocates [OF sc [unfolded \<open>type = OBJECT_HQ\<close>] Some' False]
      obtain qc sxc where c: "ClearTile_Object ext (st\<lparr>current_company := OWNER_WATER\<rparr>)
                                (location_of_HQ c) fc = Some (qc, sxc)"
        by blast
      have t: "tiles (st\<lparr>current_company := OWNER_WATER\<rparr>) (location_of_HQ c)
               = tiles (s\<lparr>current_company := OWNER_WATER\<rparr>) (location_of_HQ c)"
        using hq [OF Some] by simp
      have "Object_GetByTile (x\<lparr>current_company := OWNER_WATER\<rparr>) l = Object_GetByTile x l"
        for x l
        by (simp add: Object_GetByTile_def GetObjectIndex_def IsTileType_def)
      then have o: "Object_GetByTile (st\<lparr>current_company := OWNER_WATER\<rparr>) (location_of_HQ c)
               = Object_GetByTile (s\<lparr>current_company := OWNER_WATER\<rparr>) (location_of_HQ c)"
        by (simp only: hq [OF Some])
      have "cc_cost qe = cc_cost qc"
        by (rule ClearTile_Object_forced_cost [OF vf e c _ _ t o]) simp_all
      with e c Some Some' False \<open>type = OBJECT_HQ\<close> show ?thesis
        by (simp add: CmdBuildObject_relocation_cost_def)
    qed
  qed
qed

lemma CmdBuildObject_terrain_modes:
  assumes "terrain_cost_mode_independent ext"
  shows "fst (CmdBuildObject_terrain ext s type tile ta (insert DC_EXEC F))
         = fst (CmdBuildObject_terrain ext s type tile ta (F - {DC_EXEC}))"
  using assms by (simp add: CmdBuildObject_terrain_def terrain_cost_mode_independent_def)

text \<open>Estimate and commit of the same command, both successful, cost the same.\<close>

lemma CmdBuildObject_modes_same_cost:
  assumes ep: "estimate_preserves_world ext" and ti: "terrain_cost_mode_independent ext"
    and kh: "commit_keeps_headquarters ext" and vf: "company_value_fixed ext"
    and e: "CmdBuildObject ext s tile (F - {DC_EXEC}) p1 = Some (re, se)" and eok: "Succeeded re"
    and c: "CmdBuildObject ext s tile (insert DC_EXEC F) p1 = Some (rc, sc)" and cok: "Succeeded rc"
  shows "cc_cost re = cc_cost rc"
proof -
  let ?type = "GB p1 0 8"
  let ?ta = "\<lparr>ta_tile = tile, ta_w = GB (spec_size (ObjectSpec_Get ext ?type)) 0 4,
              ta_h = GB (spec_size (ObjectSpec_Get ext ?type)) 4 4\<rparr>"
  let ?build = "spec_build_cost (ObjectSpec_Get ext ?type)
                  * int (GB (spec_size (ObjectSpec_Get ext ?type)) 0 4)
                  * int (GB (spec_size (ObjectSpec_Get ext ?type)) 4 4)"
  from CmdBuildObject_success [OF e eok]
  obtain rete s1e cost2e hse s2e where
    te: "CmdBuildObject_terrain ext s ?type tile ?ta (F - {DC_EXEC}) = (rete, s1e)"
    and swe: "CmdBuildObject_switch ext s1e ?type tile (F - {DC_EXEC})
                (AddCost (CommandCost_init EXPENSES_PROPERTY) rete) = Some (Inr (cost2e, hse), s2e)"
    and re: "re = AddCostMoney cost2e ?build"
    by blast
  from CmdBuildObject_success [OF c cok]
  obtain retc s1c cost2c hsc s2c where
    tc: "CmdBuildObject_terrain ext s ?type tile ?ta (insert DC_EXEC F) = (retc, s1c)"
    and okc: "cc_success retc"
    and swc: "CmdBuildObject_switch ext s1c ?type tile (insert DC_EXEC F)
                (AddCost (CommandCost_init EXPENSES_PROPERTY) retc) = Some (Inr (cost2c, hsc), s2c)"
    and rc: "rc = AddCostMoney cost2c ?build"
    by blast
  have s1e: "s1e = s"
    using CmdBuildObject_terrain_estimate [OF _ ep, of "F - {DC_EXEC}" s ?type tile ?ta] te
    by simp
  have ret: "retc = rete"
    using CmdBuildObject_terrain_modes [OF ti, of s ?type tile ?ta F] te tc by simp
  have rel: "CmdBuildObject_relocation_cost ext s ?type (F - {DC_EXEC})
             = CmdBuildObject_relocation_cost ext s1c ?type (insert DC_EXEC F)"
    by (rule CmdBuildObject_relocation_cost_modes [OF kh vf tc okc swe [unfolded s1e] swc])
  from CmdBuildObject_switch_cost [OF swe] CmdBuildObject_switch_cost [OF swc]
  show ?thesis
    unfolding re rc s1e ret rel by simp
qed

text \<open>
  C4, as stated, fails: a company that has a headquarters and builds a new one is
  charged the relocation of the old one on top of the terrain check and the build cost.
  In the small world the estimate is 430, while the terrain check costs 20 and the
  build cost times the area is \<open>100 * 2 * 2\<close>.
\<close>

theorem CmdBuildObject_total_counterexample:
  "CmdBuildObject demo_ext demo_world_hq 100 {} 4 =
     Some (\<lparr>cc_expense_type = EXPENSES_PROPERTY, cc_cost = 430, cc_message = INVALID_STRING_ID,
            cc_success = True\<rparr>, demo_world_hq)
   \<and> Succeeded \<lparr>cc_expense_type = EXPENSES_PROPERTY, cc_cost = 430,
                cc_message = INVALID_STRING_ID, cc_success = True\<rparr>
   \<and> (430 :: int) \<noteq>
       cc_cost (fst (CmdBuildObject_terrain demo_ext demo_world_hq OBJECT_HQ 100
                       \<lparr>ta_tile = 100, ta_w = 2, ta_h = 2\<rparr> {}))
       + spec_build_cost (ObjectSpec_Get demo_ext OBJECT_HQ) * 2 * 2"
proof -
  have "cc_cost (fst (CmdBuildObject_terrain demo_ext demo_world_hq OBJECT_HQ 100
                       \<lparr>ta_tile = 100, ta_w = 2, ta_h = 2\<rparr> {})) = 20"
    by (simp add: CmdBuildObject_terrain_def demo_ext_def const_defs CommandCost_of_def)
  moreover have "spec_build_cost (ObjectSpec_Get demo_ext OBJECT_HQ) = 100"
    by (simp add: demo_ext_def demo_spec_def const_defs)
  ultimately show ?thesis
    by (simp add: demo_hq_estimate Succeeded_def)
qed

text \<open>
  C4, amended. On success the total that \<^verbatim>\<open>CmdBuildObject\<close> returns is the cost of
  the terrain check, plus the cost of the forced clearing of the old headquarters when a
  company that has one builds a new one, plus the build cost of the kind times the area
  of the footprint. The same total is returned in estimate mode and in commit mode: when
  the functions of other files keep their contract (the terrain checks change nothing in
  estimate mode, report the same result in both modes and leave the old headquarters
  alone; the value of the company is fixed), the call with \<^verbatim>\<open>DC_EXEC\<close> switched the
  other way, if it succeeds too, returns the same cost.
\<close>

theorem CmdBuildObject_total_cost:
  assumes "CmdBuildObject ext s tile flags p1 = Some (r, s')"
    and "Succeeded r"
  shows "cc_cost r = CmdBuildObject_total ext s tile flags p1
         \<and> (estimate_preserves_world ext \<and> terrain_cost_mode_independent ext
              \<and> commit_keeps_headquarters ext \<and> company_value_fixed ext \<longrightarrow>
             (\<forall>r' s''.
                CmdBuildObject ext s tile
                  (if DC_EXEC \<in> flags then flags - {DC_EXEC} else insert DC_EXEC flags) p1
                  = Some (r', s'')
                \<and> Succeeded r' \<longrightarrow> cc_cost r' = cc_cost r))"
proof (intro conjI allI impI)
  show "cc_cost r = CmdBuildObject_total ext s tile flags p1"
    using CmdBuildObject_success [OF assms]
    by (auto simp: CmdBuildObject_total_def Let_def dest!: CmdBuildObject_switch_cost)
next
  fix r' s''
  assume k: "estimate_preserves_world ext \<and> terrain_cost_mode_independent ext
              \<and> commit_keeps_headquarters ext \<and> company_value_fixed ext"
    and o: "CmdBuildObject ext s tile
                  (if DC_EXEC \<in> flags then flags - {DC_EXEC} else insert DC_EXEC flags) p1
                  = Some (r', s'')
                \<and> Succeeded r'"
  from k have ep: "estimate_preserves_world ext" and ti: "terrain_cost_mode_independent ext"
    and kh: "commit_keeps_headquarters ext" and vf: "company_value_fixed ext"
    by blast+
  show "cc_cost r' = cc_cost r"
  proof (cases "DC_EXEC \<in> flags")
    case True
    then have f: "insert DC_EXEC flags = flags" by blast
    from o True have e: "CmdBuildObject ext s tile (flags - {DC_EXEC}) p1 = Some (r', s'')"
      and eok: "Succeeded r'" by simp_all
    have c: "CmdBuildObject ext s tile (insert DC_EXEC flags) p1 = Some (r, s')"
      using assms(1) by (simp only: f)
    from CmdBuildObject_modes_same_cost [OF ep ti kh vf e eok c assms(2)]
    show ?thesis .
  next
    case False
    then have f: "flags - {DC_EXEC} = flags" by blast
    from o False have c: "CmdBuildObject ext s tile (insert DC_EXEC flags) p1 = Some (r', s'')"
      and cok: "Succeeded r'" by simp_all
    have e: "CmdBuildObject ext s tile (flags - {DC_EXEC}) p1 = Some (r, s')"
      using assms(1) by (simp only: f)
    from CmdBuildObject_modes_same_cost [OF ep ti kh vf e assms(2) c cok]
    show ?thesis by (rule sym)
  qed
qed

lemma demo_ext_contract:
  "terrain_cost_mode_independent demo_ext" "commit_keeps_headquarters demo_ext"
  "company_value_fixed demo_ext"
  unfolding terrain_cost_mode_independent_def commit_keeps_headquarters_def company_value_fixed_def
  by (auto simp: demo_ext_def)

lemma demo_hq_relocation_commit:
  "\<exists>r s'. CmdBuildObject demo_ext demo_world_hq 100 {DC_EXEC} 4 = Some (r, s') \<and> Succeeded r"
  by (simp add: cmd_defs demo_defs const_defs cost_defs tile_defs Let_def UpdateCompanyHQ_def
      UpdateCompanyHQ_val_def UpdateCompanyHQ_loop.simps IncreaseAnimationStage_def
      upt_conv_Cons cong: option.case_cong_weak)

theorem CmdBuildObject_total_cost_witness:
  "CmdBuildObject demo_ext demo_world_hq 100 {} 4 =
     Some (\<lparr>cc_expense_type = EXPENSES_PROPERTY, cc_cost = 430, cc_message = INVALID_STRING_ID,
            cc_success = True\<rparr>, demo_world_hq)
   \<and> Succeeded \<lparr>cc_expense_type = EXPENSES_PROPERTY, cc_cost = 430,
                cc_message = INVALID_STRING_ID, cc_success = True\<rparr>
   \<and> CmdBuildObject_total demo_ext demo_world_hq 100 {} 4 = 430
   \<and> estimate_preserves_world demo_ext \<and> terrain_cost_mode_independent demo_ext
   \<and> commit_keeps_headquarters demo_ext \<and> company_value_fixed demo_ext
   \<and> (\<exists>r' s''. CmdBuildObject demo_ext demo_world_hq 100 {DC_EXEC} 4 = Some (r', s'')
         \<and> Succeeded r' \<and> cc_cost r' = 430)"
proof -
  have h: "Succeeded \<lparr>cc_expense_type = EXPENSES_PROPERTY, cc_cost = 430,
                cc_message = INVALID_STRING_ID, cc_success = True\<rparr>"
    by (simp add: Succeeded_def)
  note t = CmdBuildObject_total_cost [OF demo_hq_estimate h]
  from t have total: "CmdBuildObject_total demo_ext demo_world_hq 100 {} 4 = 430"
    by simp
  from demo_hq_relocation_commit obtain r' s'' where
    run: "CmdBuildObject demo_ext demo_world_hq 100 {DC_EXEC} 4 = Some (r', s'')"
    and ok: "Succeeded r'"
    by blast
  have f: "(if DC_EXEC \<in> {} then {} - {DC_EXEC} else insert DC_EXEC {}) = {DC_EXEC}"
    by simp
  have k: "estimate_preserves_world demo_ext \<and> terrain_cost_mode_independent demo_ext
           \<and> commit_keeps_headquarters demo_ext \<and> company_value_fixed demo_ext"
    by (intro conjI) (rule demo_ext_estimate demo_ext_contract)+
  have "cc_cost r' = cc_cost \<lparr>cc_expense_type = EXPENSES_PROPERTY, cc_cost = 430,
                cc_message = INVALID_STRING_ID, cc_success = True\<rparr>"
    by (rule t [THEN conjunct2, unfolded f, rule_format, OF k conjI [OF run ok]])
  then have "cc_cost r' = 430"
    by simp
  with run ok have ex: "\<exists>r' s''. CmdBuildObject demo_ext demo_world_hq 100 {DC_EXEC} 4 = Some (r', s'')
         \<and> Succeeded r' \<and> cc_cost r' = 430"
    by blast
  show ?thesis
    by (intro conjI)
       (rule demo_hq_estimate, rule h, rule total, rule demo_ext_estimate,
        rule demo_ext_contract(1), rule demo_ext_contract(2), rule demo_ext_contract(3), rule ex)
qed

subsection \<open>Capacity\<close>

lemma CmdBuildObject_precheck_returns:
  "CmdBuildObject_precheck ext s (ObjectSpec_Get ext (GB p1 0 8)) = Some err
     \<Longrightarrow> CmdBuildObject ext s tile flags p1 = Some (err, s)"
  by (simp add: CmdBuildObject_def Let_def)

lemma demo_towers_placed:
  "demo_place demo_ext_gen demo_world OBJECT_TRANSMITTER [1, 6, 11, 16] = Some demo_world_towers"
proof -
  have "demo_place demo_ext_gen demo_world OBJECT_TRANSMITTER [1, 6, 11, 16] \<noteq> None"
    by (simp add: cmd_defs demo_defs demo_ext_gen_def const_defs tile_defs Let_def
        cong: option.case_cong_weak)
  then show ?thesis
    unfolding demo_world_towers_def by simp
qed

lemma demo_towers_facts:
  "unat (counts demo_world_towers OBJECT_TRANSMITTER) = 4"
  "pool_items (object_pool demo_world_towers) = 4"
  "game_mode demo_world_towers = GM_NORMAL"
  "current_company demo_world_towers = 0"
  by (simp_all add: demo_world_towers_def cmd_defs demo_defs demo_ext_gen_def const_defs tile_defs
      Let_def cong: option.case_cong_weak)

lemma demo_towers_precheck:
  "CmdBuildObject_precheck demo_ext_gen demo_world_towers (ObjectSpec_Get demo_ext_gen (GB 0 0 8))
     = Some CMD_ERROR"
  by (simp add: CmdBuildObject_precheck_def IsAvailable_def demo_towers_facts demo_ext_gen_def
      demo_ext_def demo_spec_def const_defs GB_def)

text \<open>
  C5, as stated, fails: the checks of availability and phase come before the capacity
  check. After world generation has placed four transmitters the pool of four slots is
  full and the count of transmitters equals the limit, yet in a running game the call for
  a transmitter (a kind for the scenario editor only) fails with \<^verbatim>\<open>CMD_ERROR\<close>, not with
  \<^verbatim>\<open>STR_ERROR_TOO_MANY_OBJECTS\<close>, in estimate mode and in commit mode.
\<close>

theorem CmdBuildObject_capacity_counterexample:
  "demo_place demo_ext_gen demo_world OBJECT_TRANSMITTER [1, 6, 11, 16] = Some demo_world_towers
   \<and> unat (counts demo_world_towers OBJECT_TRANSMITTER) = Object_pool_max_size demo_ext_gen
   \<and> pool_items (object_pool demo_world_towers) = Object_pool_max_size demo_ext_gen
   \<and> CmdBuildObject demo_ext_gen demo_world_towers 20 {} OBJECT_TRANSMITTER
       = Some (CMD_ERROR, demo_world_towers)
   \<and> CmdBuildObject demo_ext_gen demo_world_towers 20 {DC_EXEC} OBJECT_TRANSMITTER
       = Some (CMD_ERROR, demo_world_towers)
   \<and> CMD_ERROR \<noteq> return_cmd_error STR_ERROR_TOO_MANY_OBJECTS"
proof -
  have m: "Object_pool_max_size demo_ext_gen = 4"
    by (simp add: demo_ext_gen_def demo_ext_def)
  have e: "CMD_ERROR \<noteq> return_cmd_error STR_ERROR_TOO_MANY_OBJECTS"
    by (simp add: CMD_ERROR_def return_cmd_error_def)
  have p: "CmdBuildObject_precheck demo_ext_gen demo_world_towers
             (ObjectSpec_Get demo_ext_gen (GB OBJECT_TRANSMITTER 0 8)) = Some CMD_ERROR"
    using demo_towers_precheck by (simp add: OBJECT_TRANSMITTER_def)
  show ?thesis
    using demo_towers_placed demo_towers_facts(1,2) m e
      CmdBuildObject_precheck_returns [OF p, of 20 "{}"]
      CmdBuildObject_precheck_returns [OF p, of 20 "{DC_EXEC}"]
    by simp
qed

lemma CmdBuildObject_pool_full_fails:
  assumes "\<not> CanAllocateItem ext s"
    and "kind_buildable_now s (ObjectSpec_Get ext (GB p1 0 8))"
  shows "CmdBuildObject ext s tile flags p1 =
           Some (return_cmd_error STR_ERROR_TOO_MANY_OBJECTS, s)"
  using assms
  by (auto simp: CmdBuildObject_def CmdBuildObject_precheck_def kind_buildable_now_def Let_def)

text \<open>
  C5, amended. The only configured maximum is the size limit of the object pool, shared
  by all kinds (\<^verbatim>\<open>Object::CanAllocateItem\<close>). For a kind that is available and may be
  built in the current phase of the game, in any world where the live count of the kind
  equals that limit (the count being at most the number of live objects in the pool, as
  in every world that the code produces), and more generally in any world whose pool is
  full, every call of \<^verbatim>\<open>CmdBuildObject\<close> for the kind fails with
  \<^verbatim>\<open>STR_ERROR_TOO_MANY_OBJECTS\<close> and leaves the world unchanged, with any flags, so in
  estimate mode and in commit mode alike.
\<close>

theorem CmdBuildObject_pool_full:
  assumes "kind_buildable_now s (ObjectSpec_Get ext (GB p1 0 8))"
    and "(unat (counts s (GB p1 0 8)) = Object_pool_max_size ext
          \<and> unat (counts s (GB p1 0 8)) \<le> pool_items (object_pool s))
         \<or> \<not> CanAllocateItem ext s"
  shows "CmdBuildObject ext s tile flags p1 =
           Some (return_cmd_error STR_ERROR_TOO_MANY_OBJECTS, s)"
proof -
  from assms(2) have "\<not> CanAllocateItem ext s"
    by (auto simp: CanAllocateItem_def)
  then show ?thesis
    using assms(1) by (rule CmdBuildObject_pool_full_fails)
qed

lemma demo_parcels_bought:
  "demo_commands demo_ext demo_world 3 [1, 6, 11, 16] = Some demo_world_parcels"
proof -
  have "demo_commands demo_ext demo_world 3 [1, 6, 11, 16] \<noteq> None"
    by (simp add: cmd_defs demo_defs const_defs cost_defs tile_defs Let_def
        cong: option.case_cong_weak)
  then show ?thesis
    unfolding demo_world_parcels_def by simp
qed

lemma demo_parcels_facts:
  "unat (counts demo_world_parcels 3) = 4"
  "pool_items (object_pool demo_world_parcels) = 4"
  "game_mode demo_world_parcels = GM_NORMAL"
  "current_company demo_world_parcels = 0"
  by (simp_all add: demo_world_parcels_def cmd_defs demo_defs const_defs cost_defs tile_defs
      Let_def cong: option.case_cong_weak)

theorem CmdBuildObject_pool_full_witness:
  "demo_commands demo_ext demo_world 3 [1, 6, 11, 16] = Some demo_world_parcels
   \<and> kind_buildable_now demo_world_parcels (ObjectSpec_Get demo_ext (GB 3 0 8))
   \<and> unat (counts demo_world_parcels (GB 3 0 8)) = Object_pool_max_size demo_ext
   \<and> unat (counts demo_world_parcels (GB 3 0 8)) \<le> pool_items (object_pool demo_world_parcels)
   \<and> CmdBuildObject demo_ext demo_world_parcels 20 {DC_EXEC} 3 =
         Some (return_cmd_error STR_ERROR_TOO_MANY_OBJECTS, demo_world_parcels)
   \<and> CmdBuildObject demo_ext demo_world_parcels 20 {} 3 =
         Some (return_cmd_error STR_ERROR_TOO_MANY_OBJECTS, demo_world_parcels)"
proof -
  have g: "GB 3 0 8 = 3" by (simp add: GB_def)
  have h1: "kind_buildable_now demo_world_parcels (ObjectSpec_Get demo_ext (GB 3 0 8))"
    by (simp add: kind_buildable_now_def IsAvailable_def demo_parcels_facts demo_ext_def
        demo_spec_def const_defs g)
  have h2: "unat (counts demo_world_parcels (GB 3 0 8)) = Object_pool_max_size demo_ext"
    by (simp add: g demo_parcels_facts demo_ext_def)
  have h3: "unat (counts demo_world_parcels (GB 3 0 8)) \<le> pool_items (object_pool demo_world_parcels)"
    by (simp add: g demo_parcels_facts)
  have h: "(unat (counts demo_world_parcels (GB 3 0 8)) = Object_pool_max_size demo_ext
            \<and> unat (counts demo_world_parcels (GB 3 0 8)) \<le> pool_items (object_pool demo_world_parcels))
           \<or> \<not> CanAllocateItem demo_ext demo_world_parcels"
    using h2 h3 by blast
  show ?thesis
    by (intro conjI)
       (rule demo_parcels_bought, rule h1, rule h2, rule h3,
        rule CmdBuildObject_pool_full [OF h1 h],
        rule CmdBuildObject_pool_full [OF h1 h])
qed

subsection \<open>The permission ladder of \<^verbatim>\<open>ClearTile_Object\<close>\<close>

lemma CommandCost_of_success [simp]: "cc_success (CommandCost_of e m)"
  by (simp add: CommandCost_of_def)

lemma MultiplyCost_success [simp]: "cc_success (MultiplyCost c f) = cc_success c"
  by (simp add: MultiplyCost_def)

lemma ClearTile_Object_switch_success:
  "ClearTile_Object_switch ext s type ob tile flags cost = Some (r, s') \<Longrightarrow> cc_success cost
     \<Longrightarrow> cc_success r"
  by (auto simp: ClearTile_Object_switch_def Let_def split: if_splits option.splits)

lemma ClearTile_Object_permitted:
  assumes "ClearTile_Object ext s tile flags = Some (r, s')"
    and "ClearTile_Object_permission s (m5_object_type (tiles s tile))
           (ObjectSpec_Get ext (m5_object_type (tiles s tile))) tile flags = None"
  shows "cc_success r"
  using assms
  by (auto simp: ClearTile_Object_def GetObjectType_def Let_def
      split: if_splits option.splits prod.splits
      dest!: ClearTile_Object_switch_success)

lemma ClearTile_Object_refused:
  assumes "ClearTile_Object ext s tile flags = Some (r, s')"
    and "ClearTile_Object_permission s (m5_object_type (tiles s tile))
           (ObjectSpec_Get ext (m5_object_type (tiles s tile))) tile flags = Some err"
  shows "r = err \<and> s' = s"
  using assms
  by (auto simp: ClearTile_Object_def GetObjectType_def Let_def
      split: if_splits option.splits prod.splits)

text \<open>
  C7. Whenever \<^verbatim>\<open>ClearTile_Object\<close> returns, its outcome is the one that the permission
  ladder of the spec decides, rule by rule in the stated order: under
  \<^verbatim>\<open>OWNER_WATER\<close> (the force context) the clearing goes on to a cost; otherwise a kind
  without \<^verbatim>\<open>OBJECT_FLAG_AUTOREMOVE\<close> fails a \<^verbatim>\<open>DC_AUTO\<close> request with an "in the way"
  message (the headquarters has its own); otherwise the editor passes; otherwise a tile
  of \<^verbatim>\<open>OWNER_NONE\<close> passes with the magic bulldozer and fails with \<^verbatim>\<open>CMD_ERROR\<close>
  without; otherwise a caller that does not own the tile fails with
  \<^verbatim>\<open>STR_ERROR_OWNED_BY\<close>; otherwise a kind without automatic removal fails with
  \<^verbatim>\<open>CMD_ERROR\<close> unless the magic bulldozer is on. Every failure leaves the world as it
  was.
\<close>

theorem ClearTile_Object_permission_ladder:
  assumes "ClearTile_Object ext s tile flags = Some (r, s')"
  shows "(case Clear_permission_ladder
                 (current_company s = OWNER_WATER)
                 (OBJECT_FLAG_AUTOREMOVE
                    \<in> spec_flags (ObjectSpec_Get ext (m5_object_type (tiles s tile))))
                 (DC_AUTO \<in> flags)
                 (game_mode s = GM_EDITOR)
                 (GetTileOwner s tile = OWNER_NONE)
                 (magic_bulldozer s)
                 (GetTileOwner s tile = current_company s) of
            ClearAllowed \<Rightarrow> Succeeded r
          | ClearInTheWay \<Rightarrow>
              Failed r \<and> in_the_way_message (cc_message r) \<and> s' = s
              \<and> r = return_cmd_error
                      (if m5_object_type (tiles s tile) = OBJECT_HQ
                       then STR_ERROR_COMPANY_HEADQUARTERS_IN else STR_ERROR_OBJECT_IN_THE_WAY)
          | ClearRefused \<Rightarrow> r = CMD_ERROR \<and> s' = s
          | ClearOwnedByOther \<Rightarrow> r = return_cmd_error STR_ERROR_OWNED_BY \<and> s' = s)"
proof -
  let ?type = "m5_object_type (tiles s tile)"
  let ?perm = "ClearTile_Object_permission s ?type (ObjectSpec_Get ext ?type) tile flags"
  show ?thesis
  proof (cases ?perm)
    case None
    from ClearTile_Object_permitted [OF assms None] have "Succeeded r"
      by (simp add: Succeeded_def)
    moreover from None have "Clear_permission_ladder
                 (current_company s = OWNER_WATER)
                 (OBJECT_FLAG_AUTOREMOVE \<in> spec_flags (ObjectSpec_Get ext ?type))
                 (DC_AUTO \<in> flags)
                 (game_mode s = GM_EDITOR)
                 (GetTileOwner s tile = OWNER_NONE)
                 (magic_bulldozer s)
                 (GetTileOwner s tile = current_company s) = ClearAllowed"
      by (auto simp: ClearTile_Object_permission_def Clear_permission_ladder_def
          CheckTileOwnership_def Failed_def split: if_splits)
    ultimately show ?thesis by simp
  next
    case (Some err)
    from ClearTile_Object_refused [OF assms Some] have r: "r = err" "s' = s" by simp_all
    from Some show ?thesis
      unfolding r
      by (auto simp: ClearTile_Object_permission_def Clear_permission_ladder_def
          CheckTileOwnership_def Failed_def in_the_way_message_def return_cmd_error_def
          CMD_ERROR_def
          split: if_splits)
  qed
qed

lemma demo_hq_clear_auto:
  "ClearTile_Object demo_ext demo_world_hq 21 {DC_AUTO, DC_EXEC} =
     Some (return_cmd_error STR_ERROR_COMPANY_HEADQUARTERS_IN, demo_world_hq)"
  by (simp add: cmd_defs demo_defs const_defs cost_defs tile_defs Let_def
      cong: option.case_cong_weak)

theorem ClearTile_Object_permission_ladder_witness:
  "ClearTile_Object demo_ext demo_world_hq 21 {DC_AUTO, DC_EXEC} =
     Some (return_cmd_error STR_ERROR_COMPANY_HEADQUARTERS_IN, demo_world_hq)
   \<and> Clear_permission_ladder
        (current_company demo_world_hq = OWNER_WATER)
        (OBJECT_FLAG_AUTOREMOVE
           \<in> spec_flags (ObjectSpec_Get demo_ext (m5_object_type (tiles demo_world_hq 21))))
        (DC_AUTO \<in> {DC_AUTO, DC_EXEC})
        (game_mode demo_world_hq = GM_EDITOR)
        (GetTileOwner demo_world_hq 21 = OWNER_NONE)
        (magic_bulldozer demo_world_hq)
        (GetTileOwner demo_world_hq 21 = current_company demo_world_hq) = ClearInTheWay
   \<and> in_the_way_message (cc_message (return_cmd_error STR_ERROR_COMPANY_HEADQUARTERS_IN))"
proof -
  have l: "Clear_permission_ladder
        (current_company demo_world_hq = OWNER_WATER)
        (OBJECT_FLAG_AUTOREMOVE
           \<in> spec_flags (ObjectSpec_Get demo_ext (m5_object_type (tiles demo_world_hq 21))))
        (DC_AUTO \<in> {DC_AUTO, DC_EXEC})
        (game_mode demo_world_hq = GM_EDITOR)
        (GetTileOwner demo_world_hq 21 = OWNER_NONE)
        (magic_bulldozer demo_world_hq)
        (GetTileOwner demo_world_hq 21 = current_company demo_world_hq) = ClearInTheWay"
    by (simp add: Clear_permission_ladder_def demo_defs const_defs tile_defs)
  have m: "in_the_way_message (cc_message (return_cmd_error STR_ERROR_COMPANY_HEADQUARTERS_IN))"
    by (rule ClearTile_Object_permission_ladder [OF demo_hq_clear_auto,
          unfolded l ClearPermission.case, THEN conjunct2, THEN conjunct1])
  show ?thesis
    by (intro conjI) (rule demo_hq_clear_auto, rule l, rule m)
qed

subsection \<open>Worlds that differ in animation frames only\<close>

lemma frames_only_refl [simp]: "frames_only s s"
  unfolding frames_only_def
  by (rule exI [of _ "\<lambda>t. m7_frame (tiles s t)"]) simp

lemma frames_only_trans: "frames_only a b \<Longrightarrow> frames_only b c \<Longrightarrow> frames_only a c"
  unfolding frames_only_def
proof (elim exE)
  fix f g
  assume b: "b = a\<lparr>tiles := \<lambda>t. (tiles a t)\<lparr>m7_frame := f t\<rparr>\<rparr>"
    and c: "c = b\<lparr>tiles := \<lambda>t. (tiles b t)\<lparr>m7_frame := g t\<rparr>\<rparr>"
  have "c = a\<lparr>tiles := \<lambda>t. (tiles a t)\<lparr>m7_frame := g t\<rparr>\<rparr>"
    unfolding c b by simp
  then show "\<exists>h. c = a\<lparr>tiles := \<lambda>t. (tiles a t)\<lparr>m7_frame := h t\<rparr>\<rparr>"
    by (rule exI [where x = g])
qed

lemma frames_only_fields:
  assumes "frames_only s s'"
  shows "object_pool s' = object_pool s" "MapSizeX s' = MapSizeX s" "MapSizeY s' = MapSizeY s"
    "counts s' = counts s" "companies s' = companies s" "towns s' = towns s"
    "current_company s' = current_company s" "game_mode s' = game_mode s"
    "magic_bulldozer s' = magic_bulldozer s"
    "tile_type (tiles s' t) = tile_type (tiles s t)"
    "m2_index (tiles s' t) = m2_index (tiles s t)"
    "m5_object_type (tiles s' t) = m5_object_type (tiles s t)"
    "tile_owner (tiles s' t) = tile_owner (tiles s t)"
    "water_class (tiles s' t) = water_class (tiles s t)"
    "water_tile_type (tiles s' t) = water_tile_type (tiles s t)"
  using assms unfolding frames_only_def by auto

lemma SetAnimationFrame_frames_only: "frames_only s (SetAnimationFrame s t frame)"
  unfolding frames_only_def SetAnimationFrame_def
  by (rule exI [of _ "\<lambda>u. if u = t then frame else m7_frame (tiles s u)"])
     (auto simp: fun_eq_iff intro!: arg_cong [where f = "\<lambda>x. tiles_update x s"])

lemma fold_SetAnimationFrame_frames_only:
  "frames_only s (fold (\<lambda>t s1. SetAnimationFrame s1 t (GetAnimationFrame s1 t + 1)) ts s)"
proof (induction ts arbitrary: s)
  case Nil
  show ?case by simp
next
  case (Cons t ts)
  show ?case
    using frames_only_trans [OF SetAnimationFrame_frames_only Cons.IH] by simp
qed

lemma IncreaseAnimationStage_frames_only:
  "IncreaseAnimationStage s tile = Some s' \<Longrightarrow> frames_only s s'"
  by (auto simp: IncreaseAnimationStage_def fold_SetAnimationFrame_frames_only
      split: option.splits)

lemma UpdateCompanyHQ_loop_frames_only:
  assumes "UpdateCompanyHQ_loop s tile val = Some s'"
  shows "frames_only s s'"
proof (rule UpdateCompanyHQ_loop.raw_induct
         [where P = "\<lambda>s tile val s'. frames_only s s'", OF _ assms])
  fix loop :: "World \<Rightarrow> TileIndex \<Rightarrow> 8 word \<Rightarrow> World option"
  fix s tile val sa
  assume IH: "\<And>s tile val y. loop s tile val = Some y \<Longrightarrow> frames_only s y"
    and eq: "(if GetCompanyHQSize s tile < val
              then Option.bind (IncreaseCompanyHQSize s tile) (\<lambda>s1. loop s1 tile val)
              else Some s) = Some sa"
  show "frames_only s sa"
  proof (cases "GetCompanyHQSize s tile < val")
    case False
    with eq show ?thesis by simp
  next
    case True
    with eq obtain s1 where s1: "IncreaseCompanyHQSize s tile = Some s1"
      and l: "loop s1 tile val = Some sa"
      by (auto simp: bind_eq_Some_conv)
    from IncreaseAnimationStage_frames_only [OF s1] IH [OF l]
    show ?thesis by (rule frames_only_trans)
  qed
qed

lemma UpdateCompanyHQ_frames_only:
  "UpdateCompanyHQ s tile score = Some s' \<Longrightarrow> frames_only s s'"
  by (auto simp: UpdateCompanyHQ_def split: if_splits dest: UpdateCompanyHQ_loop_frames_only)

subsection \<open>The pool\<close>

lemma FindFirstFree_le: "FindFirstFree p \<le> length p"
  by (induction p rule: FindFirstFree.induct) auto

lemma pool_get_FindFirstFree: "pool_get p (FindFirstFree p) = None"
  by (induction p rule: FindFirstFree.induct) (auto simp: pool_get_def)

lemma pool_get_pool_put: "i \<le> length p \<Longrightarrow> pool_get (pool_put p i x) i = Some x"
  by (auto simp: pool_get_def pool_put_def nth_append)

subsection \<open>\<^verbatim>\<open>BuildObject\<close> stamps the rectangle\<close>

lemma BuildObject_tile_frame:
  "(BuildObject_tile ext type ow index t s)\<lparr>tiles := tiles s, random_calls := random_calls s\<rparr> = s"
  by (simp add: BuildObject_tile_def Let_def Random_def MakeObject_def)

lemma BuildObject_tile_other:
  "u \<noteq> t \<Longrightarrow> tiles (BuildObject_tile ext type ow index t s) u = tiles s u"
  by (simp add: BuildObject_tile_def Let_def Random_def MakeObject_def)

lemma BuildObject_tile_same:
  "tile_type (tiles (BuildObject_tile ext type ow index t s) t) = MP_OBJECT"
  "m2_index (tiles (BuildObject_tile ext type ow index t s) t) = index"
  "m5_object_type (tiles (BuildObject_tile ext type ow index t s) t) = type"
  "tile_owner (tiles (BuildObject_tile ext type ow index t s) t) = ow"
  "m7_frame (tiles (BuildObject_tile ext type ow index t s) t) = 0"
  "water_class (tiles (BuildObject_tile ext type ow index t s) t) = water_class_of_tile s t"
  by (simp_all add: BuildObject_tile_def Let_def Random_def MakeObject_def water_class_of_tile_def
      IsWaterTile_def IsTileType_def GetWaterClass_def)

lemma fold_BuildObject_tile_frame:
  "(fold (BuildObject_tile ext type ow index) ts s)\<lparr>tiles := tiles s, random_calls := random_calls s\<rparr> = s"
proof (induction ts arbitrary: s)
  case Nil
  show ?case by simp
next
  case (Cons t ts)
  let ?s1 = "BuildObject_tile ext type ow index t s"
  have "(fold (BuildObject_tile ext type ow index) ts ?s1)
          \<lparr>tiles := tiles ?s1, random_calls := random_calls ?s1\<rparr> = ?s1"
    by (rule Cons.IH)
  then have "((fold (BuildObject_tile ext type ow index) ts ?s1)
          \<lparr>tiles := tiles ?s1, random_calls := random_calls ?s1\<rparr>)
          \<lparr>tiles := tiles s, random_calls := random_calls s\<rparr>
        = ?s1\<lparr>tiles := tiles s, random_calls := random_calls s\<rparr>"
    by simp
  then show ?case
    by (simp add: BuildObject_tile_frame)
qed

lemma fold_BuildObject_tile_other:
  "u \<notin> set ts \<Longrightarrow> tiles (fold (BuildObject_tile ext type ow index) ts s) u = tiles s u"
  by (induction ts arbitrary: s) (auto simp: BuildObject_tile_other)

lemma fold_BuildObject_tile_in:
  assumes "u \<in> set ts"
  shows "tile_type (tiles (fold (BuildObject_tile ext type ow index) ts s) u) = MP_OBJECT
         \<and> m2_index (tiles (fold (BuildObject_tile ext type ow index) ts s) u) = index
         \<and> m5_object_type (tiles (fold (BuildObject_tile ext type ow index) ts s) u) = type
         \<and> tile_owner (tiles (fold (BuildObject_tile ext type ow index) ts s) u) = ow
         \<and> m7_frame (tiles (fold (BuildObject_tile ext type ow index) ts s) u) = 0"
  using assms
proof (induction ts arbitrary: s)
  case Nil
  then show ?case by simp
next
  case (Cons t ts)
  show ?case
  proof (cases "u \<in> set ts")
    case True
    from Cons.IH [OF True] show ?thesis by simp
  next
    case False
    with Cons.prems have "u = t" by simp
    with False show ?thesis
      by (simp add: fold_BuildObject_tile_other BuildObject_tile_same)
  qed
qed

lemma fold_BuildObject_tile_water_class:
  assumes "distinct ts" and "u \<in> set ts"
  shows "water_class (tiles (fold (BuildObject_tile ext type ow index) ts s) u)
         = water_class_of_tile s u"
  using assms
proof (induction ts arbitrary: s)
  case Nil
  then show ?case by simp
next
  case (Cons t ts)
  show ?case
  proof (cases "u = t")
    case True
    with Cons.prems show ?thesis
      by (simp add: fold_BuildObject_tile_other BuildObject_tile_same)
  next
    case False
    with Cons.prems have u: "u \<in> set ts" and d: "distinct ts" by simp_all
    have "water_class_of_tile (BuildObject_tile ext type ow index t s) u = water_class_of_tile s u"
      using False
      by (simp add: water_class_of_tile_def IsWaterTile_def IsTileType_def GetWaterClass_def
          BuildObject_tile_other)
    with Cons.IH [OF d u] show ?thesis by simp
  qed
qed

text \<open>What a successful \<^verbatim>\<open>BuildObject\<close> leaves behind.\<close>

lemma BuildObject_result:
  assumes "BuildObject ext s type tile ow town = Some s'"
  defines "ta \<equiv> \<lparr>ta_tile = tile, ta_w = GB (spec_size (ObjectSpec_Get ext type)) 0 4,
                   ta_h = GB (spec_size (ObjectSpec_Get ext type)) 4 4\<rparr>"
    and "index \<equiv> FindFirstFree (object_pool s)"
  shows "pool_get (object_pool s) index = None"
    and "\<exists>ob. pool_get (object_pool s') index = Some ob \<and> location ob = ta"
    and "MapSizeX s' = MapSizeX s"
    and "\<forall>t \<in> set (TILE_AREA_LOOP s ta).
           tile_type (tiles s' t) = MP_OBJECT \<and> m2_index (tiles s' t) = index
           \<and> m5_object_type (tiles s' t) = type \<and> tile_owner (tiles s' t) = ow
           \<and> m7_frame (tiles s' t) = 0"
    and "distinct (TILE_AREA_LOOP s ta) \<longrightarrow>
           (\<forall>t \<in> set (TILE_AREA_LOOP s ta). water_class (tiles s' t) = water_class_of_tile s t)"
    and "counts s' = (counts s)(type := counts s type + 1)"
    and "companies s' = companies s" and "towns s' = towns s"
    and "current_company s' = current_company s" and "game_mode s' = game_mode s"
    and "magic_bulldozer s' = magic_bulldozer s"
    and "\<forall>t. t \<notin> set (TILE_AREA_LOOP s ta) \<longrightarrow> tiles s' t = tiles s t"
proof -
  show "pool_get (object_pool s) index = None"
    unfolding index_def by (rule pool_get_FindFirstFree)
  from assms(1) obtain tw where
    s': "s' = IncTypeCount
                (fold (BuildObject_tile ext type ow index) (TILE_AREA_LOOP s ta)
                   (s\<lparr>object_pool := pool_put (object_pool s) index
                         \<lparr>location = ta, o_town = tw, build_date = cur_date s\<rparr>\<rparr>)) type"
    by (auto simp: BuildObject_def Let_def ta_def index_def TILE_AREA_LOOP_def TILE_LOOP_def
        TileDiffXY_def split: if_splits option.splits)
  let ?s1 = "s\<lparr>object_pool := pool_put (object_pool s) index
                         \<lparr>location = ta, o_town = tw, build_date = cur_date s\<rparr>\<rparr>"
  let ?s2 = "fold (BuildObject_tile ext type ow index) (TILE_AREA_LOOP s ta) ?s1"
  have fr: "?s2\<lparr>tiles := tiles ?s1, random_calls := random_calls ?s1\<rparr> = ?s1"
    by (rule fold_BuildObject_tile_frame)
  have pool: "object_pool ?s2 = object_pool ?s1"
    using arg_cong [OF fr, of object_pool] by simp
  have msx: "MapSizeX ?s2 = MapSizeX ?s1"
    using arg_cong [OF fr, of MapSizeX] by simp
  have cnt: "counts ?s2 = counts ?s1"
    using arg_cong [OF fr, of counts] by simp
  have cmp: "companies ?s2 = companies ?s1" "towns ?s2 = towns ?s1"
    "current_company ?s2 = current_company ?s1" "game_mode ?s2 = game_mode ?s1"
    "magic_bulldozer ?s2 = magic_bulldozer ?s1"
    using arg_cong [OF fr, of companies] arg_cong [OF fr, of towns]
      arg_cong [OF fr, of current_company] arg_cong [OF fr, of game_mode]
      arg_cong [OF fr, of magic_bulldozer] by simp_all
  show "\<exists>ob. pool_get (object_pool s') index = Some ob \<and> location ob = ta"
    unfolding s' using pool FindFirstFree_le [of "object_pool s"]
    by (simp add: IncTypeCount_def pool_get_pool_put index_def)
  show "MapSizeX s' = MapSizeX s"
    unfolding s' using msx by (simp add: IncTypeCount_def)
  show "counts s' = (counts s)(type := counts s type + 1)"
    unfolding s' using cnt by (simp add: IncTypeCount_def)
  show "companies s' = companies s" "towns s' = towns s"
    "current_company s' = current_company s" "game_mode s' = game_mode s"
    "magic_bulldozer s' = magic_bulldozer s"
    unfolding s' using cmp by (simp_all add: IncTypeCount_def)
  show "\<forall>t \<in> set (TILE_AREA_LOOP s ta).
           tile_type (tiles s' t) = MP_OBJECT \<and> m2_index (tiles s' t) = index
           \<and> m5_object_type (tiles s' t) = type \<and> tile_owner (tiles s' t) = ow
           \<and> m7_frame (tiles s' t) = 0"
    unfolding s' by (auto simp: IncTypeCount_def dest: fold_BuildObject_tile_in)
  show "distinct (TILE_AREA_LOOP s ta) \<longrightarrow>
           (\<forall>t \<in> set (TILE_AREA_LOOP s ta). water_class (tiles s' t) = water_class_of_tile s t)"
  proof (intro impI ballI)
    fix t
    assume d: "distinct (TILE_AREA_LOOP s ta)" and t: "t \<in> set (TILE_AREA_LOOP s ta)"
    have "water_class_of_tile ?s1 t = water_class_of_tile s t"
      by (simp add: water_class_of_tile_def IsWaterTile_def IsTileType_def GetWaterClass_def)
    with fold_BuildObject_tile_water_class [OF d t, of ext type ow index ?s1]
    show "water_class (tiles s' t) = water_class_of_tile s t"
      unfolding s' by (simp add: IncTypeCount_def)
  qed
  show "\<forall>t. t \<notin> set (TILE_AREA_LOOP s ta) \<longrightarrow> tiles s' t = tiles s t"
    unfolding s' by (simp add: IncTypeCount_def fold_BuildObject_tile_other)
qed


lemma CmdBuildObject_exec_cases:
  assumes "CmdBuildObject_exec ext s2 type tile hq_score = Some s'"
  shows "\<exists>sb. BuildObject ext s2 type tile (current_company s2) None = Some sb
              \<and> frames_only sb s'
              \<and> (type \<noteq> OBJECT_HQ \<longrightarrow> s' = sb)"
  using assms
  by (auto simp: CmdBuildObject_exec_def split: option.splits if_splits
      dest: UpdateCompanyHQ_frames_only)

text \<open>
  C2. After a successful \<^verbatim>\<open>CmdBuildObject\<close> with \<^verbatim>\<open>DC_EXEC\<close>, the object pool holds an
  object in a slot that was free when \<^verbatim>\<open>BuildObject\<close> ran (the newly created object), its
  \<open>location\<close> is the rectangle of the target tile and the footprint of the kind, and every
  tile that \<^verbatim>\<open>TILE_AREA_LOOP\<close> visits in that rectangle is an object tile that stores the
  index of that object, so that \<^verbatim>\<open>Object::GetByTile\<close> returns it.
\<close>

theorem CmdBuildObject_stamps_rectangle:
  assumes "CmdBuildObject ext s tile flags p1 = Some (r, s')"
    and "DC_EXEC \<in> flags"
    and "Succeeded r"
  defines "type \<equiv> GB p1 0 8"
  defines "ta \<equiv> \<lparr>ta_tile = tile, ta_w = GB (spec_size (ObjectSpec_Get ext type)) 0 4,
                   ta_h = GB (spec_size (ObjectSpec_Get ext type)) 4 4\<rparr>"
  shows "\<exists>s2 sb index ob.
           BuildObject ext s2 type tile (current_company s2) None = Some sb
           \<and> frames_only sb s'
           \<and> index = FindFirstFree (object_pool s2)
           \<and> pool_get (object_pool s2) index = None
           \<and> pool_get (object_pool s') index = Some ob
           \<and> location ob = ta
           \<and> (\<forall>t \<in> set (TILE_AREA_LOOP s' ta).
                 IsTileType s' t MP_OBJECT \<and> GetObjectIndex s' t = Some index
                 \<and> Object_GetByTile s' t = Some ob)"
proof -
  from CmdBuildObject_success [OF assms(1,3)] assms(2)
  obtain s2 hq_score where ex: "CmdBuildObject_exec ext s2 type tile hq_score = Some s'"
    unfolding type_def by auto
  from CmdBuildObject_exec_cases [OF ex]
  obtain sb where b: "BuildObject ext s2 type tile (current_company s2) None = Some sb"
    and f: "frames_only sb s'"
    by blast
  let ?index = "FindFirstFree (object_pool s2)"
  note br = BuildObject_result [OF b, folded ta_def]
  note ff = frames_only_fields [OF f]
  from br(2) obtain ob where ob: "pool_get (object_pool sb) ?index = Some ob" "location ob = ta"
    by blast
  have loop: "TILE_AREA_LOOP s' ta = TILE_AREA_LOOP s2 ta"
    using ff(2) br(3) by (simp add: TILE_AREA_LOOP_def TILE_LOOP_def TileDiffXY_def)
  have cells: "IsTileType s' t MP_OBJECT \<and> GetObjectIndex s' t = Some ?index
               \<and> Object_GetByTile s' t = Some ob"
    if "t \<in> set (TILE_AREA_LOOP s' ta)" for t
  proof -
    from that loop br(4) have "tile_type (tiles sb t) = MP_OBJECT"
      and "m2_index (tiles sb t) = ?index"
      by auto
    then show ?thesis
      using ob(1) ff(1) ff(10) [of t] ff(11) [of t]
      by (simp add: IsTileType_def GetObjectIndex_def Object_GetByTile_def)
  qed
  show ?thesis
    using b f br(1) ob ff(1) cells by (intro exI [of _ s2] exI [of _ sb] exI [of _ ?index] exI [of _ ob]) simp
qed

lemma demo_hq_commit:
  "\<exists>r s'. CmdBuildObject demo_ext demo_world 20 {DC_EXEC} 4 = Some (r, s') \<and> Succeeded r
           \<and> MapSizeX s' = 16"
  by (simp add: cmd_defs demo_defs const_defs cost_defs tile_defs Let_def UpdateCompanyHQ_def
      UpdateCompanyHQ_val_def UpdateCompanyHQ_loop.simps IncreaseAnimationStage_def
      upt_conv_Cons cong: option.case_cong_weak)

theorem CmdBuildObject_stamps_rectangle_witness:
  "\<exists>r s' index ob.
      CmdBuildObject demo_ext demo_world 20 {DC_EXEC} 4 = Some (r, s') \<and> Succeeded r
      \<and> DC_EXEC \<in> {DC_EXEC}
      \<and> pool_get (object_pool s') index = Some ob
      \<and> location ob = \<lparr>ta_tile = 20, ta_w = 2, ta_h = 2\<rparr>
      \<and> GetObjectIndex s' 20 = Some index \<and> GetObjectIndex s' 21 = Some index
      \<and> GetObjectIndex s' 36 = Some index \<and> GetObjectIndex s' 37 = Some index"
proof -
  from demo_hq_commit obtain r s' where
    run: "CmdBuildObject demo_ext demo_world 20 {DC_EXEC} 4 = Some (r, s')"
    and ok: "Succeeded r" and msx: "MapSizeX s' = 16"
    by blast
  have ex: "DC_EXEC \<in> {DC_EXEC}" by simp
  have ta: "\<lparr>ta_tile = 20, ta_w = GB (spec_size (ObjectSpec_Get demo_ext (GB 4 0 8))) 0 4,
             ta_h = GB (spec_size (ObjectSpec_Get demo_ext (GB 4 0 8))) 4 4\<rparr>
            = \<lparr>ta_tile = 20, ta_w = 2, ta_h = 2\<rparr>"
    by (simp add: demo_ext_def demo_spec_def const_defs GB_def)
  have cells: "set (TILE_AREA_LOOP s' \<lparr>ta_tile = 20, ta_w = 2, ta_h = 2\<rparr>) = {20, 21, 36, 37}"
    using msx by (auto simp: TILE_AREA_LOOP_def TILE_LOOP_def TileDiffXY_def upt_conv_Cons)
  from CmdBuildObject_stamps_rectangle [OF run ex ok, unfolded ta cells]
  obtain index ob where "pool_get (object_pool s') index = Some ob"
    and "location ob = \<lparr>ta_tile = 20, ta_w = 2, ta_h = 2\<rparr>"
    and "\<forall>t \<in> {20, 21, 36, 37}. IsTileType s' t MP_OBJECT \<and> GetObjectIndex s' t = Some index
                 \<and> Object_GetByTile s' t = Some ob"
    by blast
  with run ok ex show ?thesis by auto
qed

subsection \<open>Growth of the headquarters\<close>

lemma UpdateCompanyHQ_val_breakpoints:
  "UpdateCompanyHQ_val score =
     (if score < 170 then 0 else if score < 350 then 1 else if score < 520 then 2
      else if score < 720 then 3 else 4)"
  by (simp add: UpdateCompanyHQ_val_def Let_def)

lemma UpdateCompanyHQ_val_le: "UpdateCompanyHQ_val score \<le> 4"
  by (simp add: UpdateCompanyHQ_val_breakpoints)

lemma UpdateCompanyHQ_val_mono: "a \<le> b \<Longrightarrow> UpdateCompanyHQ_val a \<le> UpdateCompanyHQ_val b"
  by (simp add: UpdateCompanyHQ_val_breakpoints)

lemma fold_SetAnimationFrame_frame:
  "distinct ts \<Longrightarrow>
     GetAnimationFrame (fold (\<lambda>t s1. SetAnimationFrame s1 t (GetAnimationFrame s1 t + 1)) ts s) u
     = (if u \<in> set ts then GetAnimationFrame s u + 1 else GetAnimationFrame s u)"
proof (induction ts arbitrary: s)
  case Nil
  show ?case by simp
next
  case (Cons t ts)
  then have d: "distinct ts" and t: "t \<notin> set ts" by simp_all
  show ?case
    using Cons.IH [OF d, of "SetAnimationFrame s t (GetAnimationFrame s t + 1)"] t
    by (auto simp: GetAnimationFrame_def SetAnimationFrame_def)
qed

lemma frames_only_GetByTile:
  "frames_only s s' \<Longrightarrow> Object_GetByTile s' t = Object_GetByTile s t"
  using frames_only_fields(1) [of s s'] frames_only_fields(10,11) [of s s' t]
  by (simp add: Object_GetByTile_def GetObjectIndex_def IsTileType_def)

lemma frames_only_TILE_AREA_LOOP:
  "frames_only s s' \<Longrightarrow> TILE_AREA_LOOP s' ta = TILE_AREA_LOOP s ta"
  using frames_only_fields(2) [of s s']
  by (simp add: TILE_AREA_LOOP_def TILE_LOOP_def TileDiffXY_def)

lemma HQ_tile_wfD:
  assumes "HQ_tile_wf s tile"
  obtains ob where "Object_GetByTile s tile = Some ob"
    and "tile \<in> set (TILE_AREA_LOOP s (location ob))"
    and "distinct (TILE_AREA_LOOP s (location ob))"
    and "\<forall>t \<in> set (TILE_AREA_LOOP s (location ob)).
           GetCompanyHQSize s t = GetCompanyHQSize s tile"
    and "GetCompanyHQSize s tile \<le> 4"
proof (cases "Object_GetByTile s tile")
  case None
  from assms have False
    unfolding HQ_tile_wf_def None option.case .
  then show ?thesis ..
next
  case (Some ob)
  from assms have "tile \<in> set (TILE_AREA_LOOP s (location ob))
      \<and> distinct (TILE_AREA_LOOP s (location ob))
      \<and> (\<forall>t \<in> set (TILE_AREA_LOOP s (location ob)).
            GetCompanyHQSize s t = GetCompanyHQSize s tile)
      \<and> GetCompanyHQSize s tile \<le> 4"
    unfolding HQ_tile_wf_def Some option.case .
  with that [OF Some] show ?thesis by blast
qed

text \<open>One growth step on a well-formed headquarters below level 4.\<close>

lemma IncreaseAnimationStage_wf:
  assumes wf: "HQ_tile_wf s tile" and ob: "Object_GetByTile s tile = Some ob"
    and lt: "GetCompanyHQSize s tile < 4"
  shows "\<exists>s1. IncreaseCompanyHQSize s tile = Some s1 \<and> HQ_tile_wf s1 tile
              \<and> frames_only s s1
              \<and> GetCompanyHQSize s1 tile = GetCompanyHQSize s tile + 1
              \<and> (\<forall>t. GetAnimationFrame s1 t =
                      (if t \<in> set (TILE_AREA_LOOP s (location ob))
                       then GetAnimationFrame s t + 1 else GetAnimationFrame s t))"
proof -
  let ?ts = "TILE_AREA_LOOP s (location ob)"
  let ?s1 = "fold (\<lambda>t s1. SetAnimationFrame s1 t (GetAnimationFrame s1 t + 1)) ?ts s"
  from wf have all: "tile \<in> set ?ts \<and> distinct ?ts
      \<and> (\<forall>t \<in> set ?ts. GetCompanyHQSize s t = GetCompanyHQSize s tile)
      \<and> GetCompanyHQSize s tile \<le> 4"
    unfolding HQ_tile_wf_def ob option.case .
  from all have mem: "tile \<in> set ?ts" by (rule conjunct1)
  from all have d: "distinct ?ts" by (rule conjunct2 [THEN conjunct1])
  from all have same: "\<forall>t \<in> set ?ts. GetCompanyHQSize s t = GetCompanyHQSize s tile"
    by (rule conjunct2 [THEN conjunct2, THEN conjunct1])
  have run: "IncreaseCompanyHQSize s tile = Some ?s1"
    using ob by (simp add: IncreaseAnimationStage_def)
  have fo: "frames_only s ?s1"
    by (rule fold_SetAnimationFrame_frames_only)
  have fr: "GetAnimationFrame ?s1 t =
              (if t \<in> set ?ts then GetAnimationFrame s t + 1 else GetAnimationFrame s t)" for t
    by (rule fold_SetAnimationFrame_frame [OF d])
  have le: "GetCompanyHQSize s tile + 1 \<le> 4"
    using lt by (rule inc_le)
  have "HQ_tile_wf ?s1 tile"
    unfolding HQ_tile_wf_def frames_only_GetByTile [OF fo] ob option.case
      frames_only_TILE_AREA_LOOP [OF fo]
  proof (intro conjI ballI)
    show "tile \<in> set ?ts" by (rule mem)
    show "distinct ?ts" by (rule d)
    show "GetCompanyHQSize ?s1 tile \<le> 4"
      using le mem by (simp add: fr)
  next
    fix t
    assume t: "t \<in> set ?ts"
    with same have "GetCompanyHQSize s t = GetCompanyHQSize s tile" by blast
    with t mem show "GetCompanyHQSize ?s1 t = GetCompanyHQSize ?s1 tile"
      by (simp add: fr)
  qed
  with run fo fr mem show ?thesis by auto
qed

lemma word_step_measure:
  fixes x val :: "'a::len word"
  assumes "x < val"
  shows "unat val - unat (x + 1) < unat val - unat x"
proof -
  have a: "unat x < unat val"
    using assms by (simp add: word_less_nat_alt)
  from a have "Suc (unat x) \<le> unat val"
    by simp
  also have "unat val < 2 ^ LENGTH('a)"
    by (rule unsigned_less)
  finally have "unat x + unat (1 :: 'a word) < 2 ^ LENGTH('a)"
    by simp
  then have "unat (x + 1) = unat x + unat (1 :: 'a word)"
    by (simp only: unat_add_lem)
  then show ?thesis
    using a by simp
qed

lemma UpdateCompanyHQ_loop_wf:
  assumes "HQ_tile_wf s tile" and "val \<le> 4"
  shows "\<exists>s'. UpdateCompanyHQ_loop s tile val = Some s' \<and> HQ_tile_wf s' tile
              \<and> frames_only s s'
              \<and> GetCompanyHQSize s' tile = max (GetCompanyHQSize s tile) val"
  using assms
proof (induction "unat val - unat (GetCompanyHQSize s tile)" arbitrary: s rule: less_induct)
  case less
  show ?case
  proof (cases "GetCompanyHQSize s tile < val")
    case False
    then have "max (GetCompanyHQSize s tile) val = GetCompanyHQSize s tile"
      by (simp add: max_def)
    with False less.prems show ?thesis
      by (subst UpdateCompanyHQ_loop.simps) simp
  next
    case True
    with less.prems(2) have lt4: "GetCompanyHQSize s tile < 4" by simp
    from less.prems(1) obtain ob where ob: "Object_GetByTile s tile = Some ob"
      by (rule HQ_tile_wfD)
    from IncreaseAnimationStage_wf [OF less.prems(1) ob lt4]
    obtain s1 where s1: "IncreaseCompanyHQSize s tile = Some s1" and wf1: "HQ_tile_wf s1 tile"
      and fo1: "frames_only s s1"
      and f1: "GetCompanyHQSize s1 tile = GetCompanyHQSize s tile + 1"
      by blast
    have m: "unat val - unat (GetCompanyHQSize s1 tile) < unat val - unat (GetCompanyHQSize s tile)"
      unfolding f1 using True by (rule word_step_measure)
    from less.hyps [OF m wf1 less.prems(2)]
    obtain s' where l: "UpdateCompanyHQ_loop s1 tile val = Some s'" and wf': "HQ_tile_wf s' tile"
      and fo': "frames_only s1 s'"
      and f': "GetCompanyHQSize s' tile = max (GetCompanyHQSize s1 tile) val"
      by blast
    have le: "GetCompanyHQSize s tile + 1 \<le> val"
      using True by (rule inc_le)
    have "max (GetCompanyHQSize s1 tile) val = max (GetCompanyHQSize s tile) val"
      unfolding f1 using le True by (auto simp: max_def)
    with f' have f'': "GetCompanyHQSize s' tile = max (GetCompanyHQSize s tile) val" by simp
    have "UpdateCompanyHQ_loop s tile val = Some s'"
      using True s1 l by (subst UpdateCompanyHQ_loop.simps) simp
    with wf' frames_only_trans [OF fo1 fo'] f'' show ?thesis by blast
  qed
qed

lemma UpdateCompanyHQ_wf:
  assumes "HQ_tile_wf s tile" and "tile \<noteq> INVALID_TILE"
  shows "\<exists>s'. UpdateCompanyHQ s tile score = Some s' \<and> HQ_tile_wf s' tile
              \<and> frames_only s s'
              \<and> GetCompanyHQSize s' tile
                  = max (GetCompanyHQSize s tile) (UpdateCompanyHQ_val score)"
  using UpdateCompanyHQ_loop_wf [OF assms(1) UpdateCompanyHQ_val_le [of score]] assms(2)
  by (simp add: UpdateCompanyHQ_def)

lemma sorted_map_mono: "mono f \<Longrightarrow> sorted xs \<Longrightarrow> sorted (map f xs)"
  by (induction xs) (auto dest: monoD)

lemma HQ_tile_wf_le: "HQ_tile_wf s tile \<Longrightarrow> GetCompanyHQSize s tile \<le> 4"
  by (erule HQ_tile_wfD)

lemma UpdateCompanyHQ_levels_sorted:
  assumes "HQ_tile_wf s tile" and "tile \<noteq> INVALID_TILE" and "sorted scores"
  shows "UpdateCompanyHQ_levels s tile scores
         = Some (map (\<lambda>sc. max (GetCompanyHQSize s tile) (UpdateCompanyHQ_val sc)) scores)"
  using assms
proof (induction scores arbitrary: s)
  case Nil
  show ?case by simp
next
  case (Cons sc scores)
  from UpdateCompanyHQ_wf [OF Cons.prems(1,2), of sc]
  obtain s' where run: "UpdateCompanyHQ s tile sc = Some s'" and wf': "HQ_tile_wf s' tile"
    and f': "GetCompanyHQSize s' tile = max (GetCompanyHQSize s tile) (UpdateCompanyHQ_val sc)"
    by blast
  from Cons.prems(3) have srt: "sorted scores" and ge: "\<forall>x \<in> set scores. sc \<le> x" by simp_all
  have "max (GetCompanyHQSize s' tile) (UpdateCompanyHQ_val x)
        = max (GetCompanyHQSize s tile) (UpdateCompanyHQ_val x)" if "x \<in> set scores" for x
    unfolding f' using UpdateCompanyHQ_val_mono [of sc x] ge that by (auto simp: max_def)
  then have eq: "map (\<lambda>x. max (GetCompanyHQSize s' tile) (UpdateCompanyHQ_val x)) scores
             = map (\<lambda>x. max (GetCompanyHQSize s tile) (UpdateCompanyHQ_val x)) scores"
    by (intro map_cong refl)
  have "UpdateCompanyHQ_levels s tile (sc # scores)
        = map_option ((#) (GetCompanyHQSize s' tile)) (UpdateCompanyHQ_levels s' tile scores)"
    by (simp only: UpdateCompanyHQ_levels.simps run option.case)
  also have "\<dots> = Some (GetCompanyHQSize s' tile
                  # map (\<lambda>x. max (GetCompanyHQSize s tile) (UpdateCompanyHQ_val x)) scores)"
    by (simp only: Cons.IH [OF wf' Cons.prems(2) srt] eq option.map)
  also have "\<dots> = Some (map (\<lambda>x. max (GetCompanyHQSize s tile) (UpdateCompanyHQ_val x))
                  (sc # scores))"
    by (simp only: f' list.map)
  finally show ?case .
qed

text \<open>
  C6. On a well-formed headquarters tile every call of \<^verbatim>\<open>UpdateCompanyHQ\<close> returns; the
  stored size level afterwards is the larger of the level before and the target level, so
  it never decreases and never exceeds 4, and the tile is well-formed again: every cell
  of the footprint stores the same new level. The target level is given by the
  breakpoints 170, 350, 520 and 720. One growth step (\<^verbatim>\<open>IncreaseAnimationStage\<close>, run
  only below the target) adds exactly one to the level of every cell of the footprint and
  changes no other cell. Over a sequence of calls with non-decreasing scores the levels
  read after the calls are the larger of the initial level and each target level, a
  non-decreasing list bounded by 4.
\<close>

theorem UpdateCompanyHQ_growth:
  assumes "HQ_tile_wf s tile" and "tile \<noteq> INVALID_TILE"
  shows "(\<exists>s'. UpdateCompanyHQ s tile score = Some s'
               \<and> HQ_tile_wf s' tile
               \<and> frames_only s s'
               \<and> GetCompanyHQSize s' tile
                   = max (GetCompanyHQSize s tile) (UpdateCompanyHQ_val score)
               \<and> GetCompanyHQSize s tile \<le> GetCompanyHQSize s' tile
               \<and> GetCompanyHQSize s' tile \<le> 4)
         \<and> UpdateCompanyHQ_val score =
              (if score < 170 then 0 else if score < 350 then 1 else if score < 520 then 2
               else if score < 720 then 3 else 4)
         \<and> (\<forall>ob. Object_GetByTile s tile = Some ob \<and> GetCompanyHQSize s tile < 4 \<longrightarrow>
               (\<exists>s1. IncreaseCompanyHQSize s tile = Some s1 \<and> HQ_tile_wf s1 tile
                      \<and> (\<forall>t. GetAnimationFrame s1 t =
                              (if t \<in> set (TILE_AREA_LOOP s (location ob))
                               then GetAnimationFrame s t + 1 else GetAnimationFrame s t))))
         \<and> (sorted scores \<longrightarrow>
               (\<exists>ls. UpdateCompanyHQ_levels s tile scores = Some ls
                      \<and> ls = map (\<lambda>sc. max (GetCompanyHQSize s tile) (UpdateCompanyHQ_val sc)) scores
                      \<and> sorted (GetCompanyHQSize s tile # ls)
                      \<and> (\<forall>l \<in> set ls. l \<le> 4)))"
proof (intro conjI allI impI)
  from UpdateCompanyHQ_wf [OF assms, of score]
  obtain s' where run: "UpdateCompanyHQ s tile score = Some s'" and wf': "HQ_tile_wf s' tile"
    and fo: "frames_only s s'"
    and f': "GetCompanyHQSize s' tile = max (GetCompanyHQSize s tile) (UpdateCompanyHQ_val score)"
    by blast
  from f' have "GetCompanyHQSize s tile \<le> GetCompanyHQSize s' tile" by simp
  with run wf' fo f' HQ_tile_wf_le [OF wf']
  show "\<exists>s'. UpdateCompanyHQ s tile score = Some s'
               \<and> HQ_tile_wf s' tile
               \<and> frames_only s s'
               \<and> GetCompanyHQSize s' tile
                   = max (GetCompanyHQSize s tile) (UpdateCompanyHQ_val score)
               \<and> GetCompanyHQSize s tile \<le> GetCompanyHQSize s' tile
               \<and> GetCompanyHQSize s' tile \<le> 4"
    by blast
next
  show "UpdateCompanyHQ_val score =
          (if score < 170 then 0 else if score < 350 then 1 else if score < 520 then 2
           else if score < 720 then 3 else 4)"
    by (rule UpdateCompanyHQ_val_breakpoints)
next
  fix ob
  assume a: "Object_GetByTile s tile = Some ob \<and> GetCompanyHQSize s tile < 4"
  from IncreaseAnimationStage_wf [OF assms(1) conjunct1 [OF a] conjunct2 [OF a]]
  show "\<exists>s1. IncreaseCompanyHQSize s tile = Some s1 \<and> HQ_tile_wf s1 tile
              \<and> (\<forall>t. GetAnimationFrame s1 t =
                      (if t \<in> set (TILE_AREA_LOOP s (location ob))
                       then GetAnimationFrame s t + 1 else GetAnimationFrame s t))"
    by blast
next
  assume srt: "sorted scores"
  let ?f = "\<lambda>sc. max (GetCompanyHQSize s tile) (UpdateCompanyHQ_val sc)"
  have mono: "mono ?f"
    by (intro monoI max.mono order_refl UpdateCompanyHQ_val_mono)
  have s1: "sorted (map ?f scores)"
    using mono srt by (rule sorted_map_mono)
  have s2: "\<forall>l \<in> set (map ?f scores). GetCompanyHQSize s tile \<le> l \<and> l \<le> 4"
  proof
    fix l
    assume "l \<in> set (map ?f scores)"
    then obtain sc where l: "l = ?f sc"
      by (auto simp only: set_map)
    show "GetCompanyHQSize s tile \<le> l \<and> l \<le> 4"
      unfolding l
      by (intro conjI max.cobounded1 max.boundedI HQ_tile_wf_le [OF assms(1)]
          UpdateCompanyHQ_val_le)
  qed
  show "\<exists>ls. UpdateCompanyHQ_levels s tile scores = Some ls
              \<and> ls = map ?f scores
              \<and> sorted (GetCompanyHQSize s tile # ls)
              \<and> (\<forall>l \<in> set ls. l \<le> 4)"
  proof (intro exI conjI)
    show "UpdateCompanyHQ_levels s tile scores = Some (map ?f scores)"
      by (rule UpdateCompanyHQ_levels_sorted [OF assms srt])
    show "map ?f scores = map ?f scores" ..
    show "sorted (GetCompanyHQSize s tile # map ?f scores)"
      unfolding sorted_simps(2) using s1 s2 by blast
    show "\<forall>l \<in> set (map ?f scores). l \<le> 4"
      using s2 by blast
  qed
qed

lemma demo_built:
  "demo_commands demo_ext demo_world 4 [20] = Some demo_world_built"
proof -
  have "demo_commands demo_ext demo_world 4 [20] \<noteq> None"
    by (simp add: cmd_defs demo_defs const_defs cost_defs tile_defs Let_def UpdateCompanyHQ_def
        UpdateCompanyHQ_val_def UpdateCompanyHQ_loop.simps IncreaseAnimationStage_def
        upt_conv_Cons cong: option.case_cong_weak)
  then show ?thesis
    unfolding demo_world_built_def by simp
qed

lemma demo_built_wf:
  "HQ_tile_wf demo_world_built 20" "GetCompanyHQSize demo_world_built 20 = 2"
  by (simp_all add: HQ_tile_wf_def demo_world_built_def cmd_defs demo_defs const_defs cost_defs
      tile_defs Let_def UpdateCompanyHQ_def UpdateCompanyHQ_val_def UpdateCompanyHQ_loop.simps
      IncreaseAnimationStage_def upt_conv_Cons cong: option.case_cong_weak)

theorem UpdateCompanyHQ_growth_witness:
  "demo_commands demo_ext demo_world 4 [20] = Some demo_world_built
   \<and> HQ_tile_wf demo_world_built 20 \<and> (20 :: nat) \<noteq> INVALID_TILE
   \<and> sorted [100, 400, 800 :: nat]
   \<and> GetCompanyHQSize demo_world_built 20 = 2
   \<and> UpdateCompanyHQ_levels demo_world_built 20 [100, 400, 800] = Some [2, 2, 4]"
proof -
  have h: "(20 :: nat) \<noteq> INVALID_TILE" by (simp add: INVALID_TILE_def)
  have s: "sorted [100, 400, 800 :: nat]" by simp
  note z = demo_built_wf(2)
  from UpdateCompanyHQ_growth [OF demo_built_wf(1) h, of 0 "[100, 400, 800]"] s
  have "UpdateCompanyHQ_levels demo_world_built 20 [100, 400, 800]
        = Some (map (\<lambda>sc. max (GetCompanyHQSize demo_world_built 20) (UpdateCompanyHQ_val sc))
                  [100, 400, 800])"
    by blast
  then have l: "UpdateCompanyHQ_levels demo_world_built 20 [100, 400, 800] = Some [2, 2, 4]"
    unfolding z by (simp add: UpdateCompanyHQ_val_breakpoints)
  show ?thesis
    by (intro conjI) (rule demo_built, rule demo_built_wf(1), rule h, rule s, rule z, rule l)
qed

subsection \<open>The number of lighthouses to build\<close>

lemma fold_count_two:
  "fold (\<lambda>x n. let n' = (if P x then n + 1 else n) in (if Q x then n' + 1 else n')) xs n0
   = n0 + of_nat (length (filter P xs)) + (of_nat (length (filter Q xs)) :: 32 word)"
  by (induction xs arbitrary: n0) (simp_all add: Let_def)

lemma GenerateObjects_num_water_tiles_count:
  "GenerateObjects_num_water_tiles s = of_nat (border_water_count s)"
  by (simp add: GenerateObjects_num_water_tiles_def border_water_count_def border_line_cells_def
      fold_count_two filter_map comp_def)






end
